theory Spec2Isabelle
  imports Main
begin

section \<open>The repository monitor of localCI (cmd/localCI/repo.go)\<close>

text \<open>
  The monitor polls a repository, reconciles the discovered revisions against the table of
  revisions it has already handled, and runs the stage pipeline on the others. The model
  follows \<^verbatim>\<open>repo.go\<close> function by function. Calls that leave the file (the provider client,
  the environment provisioner, the file system, the log server) are parameters, and every
  such call is written down as an event, in the order in which the code makes it.
  Debug-level logging is not recorded; warnings and errors are.
\<close>

subsection \<open>Data\<close>

type_synonym error = string

text \<open>\<^verbatim>\<open>languageConfig\<close>: the provisioned environment. \<^verbatim>\<open>repo.go\<close> reads these two fields.\<close>

record languageConfig =
  workingDir :: string
  env :: "string list"

text \<open>\<^verbatim>\<open>LogServer\<close> and \<^verbatim>\<open>RepoComment\<close>, with the fields \<^verbatim>\<open>repo.go\<close> uses.\<close>

record LogServer =
  IP :: string
  User :: string
  Dir :: string

record RepoComment =
  Comment :: string

record stage =
  name :: string
  commands :: "string list"

text \<open>\<^verbatim>\<open>stageConfig\<close> as \<^verbatim>\<open>testRevision\<close> fills it (the logger is left out).\<close>

record stageConfig =
  cfg_workingDir :: string
  cfg_env :: "string list"
  tty :: bool
  logDir :: string

text \<open>The control version repository handle: the two slugs its methods return.\<close>

record CVR =
  getProjectSlug :: string
  getRepoSlug :: string

record pullRequestConfig =
  pc_cvr :: CVR
  pc_commentTrigger :: RepoComment
  pc_postOnFailure :: string
  pc_postOnSuccess :: string
  pc_whitelist :: string

text \<open>
  \<^verbatim>\<open>Repo\<close>. The type of \<^verbatim>\<open>Language\<close> is declared outside this file and stays a type
  parameter; \<^verbatim>\<open>cvr\<close> is the handle \<^verbatim>\<open>setupCvr\<close> stores; \<^verbatim>\<open>refresh\<close> is a
  \<^verbatim>\<open>time.Duration\<close>, a signed count of nanoseconds.
\<close>

record 'l Repo =
  URL :: string
  MasterBranch :: string
  PR :: int
  RefreshTime :: string
  Token :: string
  Setup :: "string list"
  Run :: "string list"
  Teardown :: "string list"
  OnSuccess :: "string list"
  OnFailure :: "string list"
  TTY :: bool
  PostOnSuccess :: string
  PostOnFailure :: string
  LogDir :: string
  Language :: 'l
  CommentTrigger :: RepoComment
  LogServer :: LogServer
  Whitelist :: string
  cvr :: CVR
  refresh :: int
  repo_env :: "string list"
  whitelistUsers :: "string list"
  prConfig :: pullRequestConfig

text \<open>What the stage runner does inside \<^verbatim>\<open>rev.test\<close>: a stage is started, a command is run.\<close>

datatype stage_event =
    StageStarted string
  | CommandRun string string

text \<open>
  The calls the monitor makes, tagged with the revision they are made for. \<open>Go rv langEnv\<close>
  is the \<^verbatim>\<open>go\<close> statement that starts \<^verbatim>\<open>testRevision\<close> in a goroutine: the loop goes on
  without waiting, and what the goroutine does is not part of the loop's trace. \<open>Test\<close> is
  the call of \<^verbatim>\<open>rev.test\<close>, \<open>InTest\<close> what the stage runner does during it.
\<close>

datatype 'r event =
    CanBeTested 'r
  | GenerateEnvironment 'r string
  | Download 'r string
  | RemoveAll string
  | MkdirAll string
  | Cleanup languageConfig
  | Go 'r languageConfig
  | Lock
  | Unlock
  | Test 'r stageConfig
  | InTest 'r stage_event
  | Copy string
  | Errorf string
  | Warnf string
  | Sleep int

text \<open>
  The \<^verbatim>\<open>revision\<close> interface: one field per method \<^verbatim>\<open>repo.go\<close> calls, over an abstract
  type \<open>'r\<close> of revision values (\<open>rev_id\<close>, \<open>rev_equal\<close> and \<open>rev_test\<close> are the methods
  \<^verbatim>\<open>id\<close>, \<^verbatim>\<open>equal\<close> and \<^verbatim>\<open>test\<close>). \<open>rev_test\<close> returns what the stage runner did and
  the error of the test, if any. A revision value carries what its observers answer: a
  revision whose being-tested marker has changed is another value of \<open>'r\<close>.
\<close>

record 'r revision =
  rev_id :: "'r \<Rightarrow> string"
  isBeingTested :: "'r \<Rightarrow> bool"
  rev_equal :: "'r \<Rightarrow> 'r \<Rightarrow> bool"
  canBeTested :: "'r \<Rightarrow> error option"
  download :: "'r \<Rightarrow> string \<Rightarrow> error option"
  logDirName :: "'r \<Rightarrow> string"
  rev_test :: "'r \<Rightarrow> stageConfig \<Rightarrow> (string \<rightharpoonup> stage) \<Rightarrow> stage_event list \<times> error option"

text \<open>
  The collaborators of the orchestrator. \<open>generateEnvironment\<close> stands for
  \<^verbatim>\<open>r.Language.generateEnvironment(slug)\<close>; its first argument is the revision being set up,
  so that two calls in one cycle may answer differently. \<open>filepath_Join\<close>,
  \<open>os_MkdirAll\<close> are the library calls of the same names, \<open>cleanup\<close> is
  \<^verbatim>\<open>langEnv.cleanup()\<close> and \<open>copy\<close> is \<^verbatim>\<open>r.LogServer.copy(dir)\<close>.
\<close>

record ('r, 'l) world =
  generateEnvironment :: "'r \<Rightarrow> 'l \<Rightarrow> string \<Rightarrow> error + languageConfig"
  cleanup :: "languageConfig \<Rightarrow> error option"
  os_MkdirAll :: "string \<Rightarrow> error option"
  filepath_Join :: "string \<Rightarrow> string \<Rightarrow> string"
  copy :: "LogServer \<Rightarrow> string \<Rightarrow> error option"

text \<open>\<^verbatim>\<open>r.cvr.getProjectSlug()\<close>.\<close>

definition projectSlug :: "'l Repo \<Rightarrow> string" where
  "projectSlug r = getProjectSlug (cvr r)"

subsection \<open>setupRevision\<close>

definition revisionLogDir :: "'r revision \<Rightarrow> ('r, 'l) world \<Rightarrow> 'l Repo \<Rightarrow> 'r \<Rightarrow> string" where
  "revisionLogDir I W r rv = filepath_Join W (LogDir r) (logDirName I rv)"

definition setupRevision ::
  "'r revision \<Rightarrow> ('r, 'l) world \<Rightarrow> 'l Repo \<Rightarrow> 'r \<Rightarrow> 'r event list \<times> (error + languageConfig)" where
  "setupRevision I W r rv =
     (case generateEnvironment W rv (Language r) (projectSlug r) of
        Inl err \<Rightarrow> ([GenerateEnvironment rv (projectSlug r)], Inl err)
      | Inr langEnv \<Rightarrow>
          (case download I rv (workingDir langEnv) of
             Some err \<Rightarrow>
               ([GenerateEnvironment rv (projectSlug r), Download rv (workingDir langEnv)],
                Inl err)
           | None \<Rightarrow>
               (let logDir = revisionLogDir I W r rv;
                    evs = [GenerateEnvironment rv (projectSlug r),
                           Download rv (workingDir langEnv), RemoveAll logDir, MkdirAll logDir]
                in case os_MkdirAll W logDir of
                     Some err \<Rightarrow> (evs, Inl err)
                   | None \<Rightarrow> (evs, Inr langEnv))))"

subsection \<open>testRevision\<close>

definition testConfig :: "'r revision \<Rightarrow> ('r, 'l) world \<Rightarrow> 'l Repo \<Rightarrow> 'r \<Rightarrow> languageConfig \<Rightarrow> stageConfig" where
  "testConfig I W r rv langEnv =
     \<lparr>cfg_workingDir = workingDir langEnv,
      cfg_env = (if length (env langEnv) > 0 then repo_env r @ env langEnv else repo_env r),
      tty = TTY r,
      logDir = revisionLogDir I W r rv\<rparr>"

definition testStages :: "'l Repo \<Rightarrow> (string \<rightharpoonup> stage)" where
  "testStages r =
     [''setup'' \<mapsto> \<lparr>name = ''setup'', commands = Setup r\<rparr>,
      ''run'' \<mapsto> \<lparr>name = ''run'', commands = Run r\<rparr>,
      ''teardown'' \<mapsto> \<lparr>name = ''teardown'', commands = Teardown r\<rparr>,
      ''onSuccess'' \<mapsto> \<lparr>name = ''onSuccess'', commands = OnSuccess r\<rparr>,
      ''onFailure'' \<mapsto> \<lparr>name = ''onFailure'', commands = OnFailure r\<rparr>]"

text \<open>The deferred function of \<^verbatim>\<open>testRevision\<close>: registered only when a server address is set.\<close>

definition shipLogs :: "('r, 'l) world \<Rightarrow> 'l Repo \<Rightarrow> stageConfig \<Rightarrow> 'r event list" where
  "shipLogs W r config =
     (if length (IP (LogServer r)) \<noteq> 0
      then Copy (logDir config) #
           (case copy W (LogServer r) (logDir config) of
              Some err \<Rightarrow> [Errorf ''failed to copy log dir'']
            | None \<Rightarrow> [])
      else [])"

definition testRevision ::
  "'r revision \<Rightarrow> ('r, 'l) world \<Rightarrow> 'l Repo \<Rightarrow> 'r \<Rightarrow> languageConfig \<Rightarrow> 'r event list \<times> error option" where
  "testRevision I W r rv langEnv =
     (let config = testConfig I W r rv langEnv;
          stages = testStages r;
          (ran, result) = rev_test I rv config stages
      in (Test rv config # map (InTest rv) ran @ shipLogs W r config, result))"

subsection \<open>testRevisions\<close>

text \<open>The inner loop of the eviction pass: is \<open>k\<close> the identity of a discovered revision?\<close>

fun found :: "'r revision \<Rightarrow> 'r list \<Rightarrow> string \<Rightarrow> bool" where
  "found I [] k = False"
| "found I (r # rs) k = (if rev_id I r = k then True else found I rs k)"

text \<open>
  The eviction pass ranges over the table and deletes the key it is visiting when that key is
  not discovered and its value is not being tested. An iteration touches its own key only,
  so the order of the range does not show in the result.
\<close>

definition evict :: "'r revision \<Rightarrow> 'r list \<Rightarrow> (string \<rightharpoonup> 'r) \<Rightarrow> (string \<rightharpoonup> 'r)" where
  "evict I revisions revisionsTested =
     (\<lambda>k. case revisionsTested k of
             None \<Rightarrow> None
           | Some v \<Rightarrow> if \<not> found I revisions k \<and> \<not> isBeingTested I v then None else Some v)"

text \<open>
  The state of the second loop: the table, the calls made so far, the deferred cleanups
  (the newest first, the order in which they run when the function returns) and the
  goroutines started. The \<^verbatim>\<open>for\<close> statement has one variable \<^verbatim>\<open>revision\<close> for all its
  iterations (the repository builds with Go 1.8), and the function literal of the \<^verbatim>\<open>go\<close>
  statement refers to that variable, while \<^verbatim>\<open>langEnv\<close> is declared in the body, once per
  iteration. A started goroutine is therefore kept as the value the variable has at the
  \<^verbatim>\<open>go\<close> statement, the values the loop assigns to it afterwards, and the environment.
\<close>

record 'r loop_state =
  revisionsTested :: "string \<rightharpoonup> 'r"
  events :: "'r event list"
  defers :: "languageConfig list"
  started :: "('r \<times> 'r list \<times> languageConfig) list"

text \<open>The two \<^verbatim>\<open>continue\<close>s at the head of the loop body.\<close>

definition alreadyHandled :: "'r revision \<Rightarrow> (string \<rightharpoonup> 'r) \<Rightarrow> 'r \<Rightarrow> bool" where
  "alreadyHandled I tbl rv =
     (case tbl (rev_id I rv) of
        None \<Rightarrow> False
      | Some tested \<Rightarrow> if isBeingTested I tested then True else rev_equal I rv tested)"

text \<open>The test itself, as far as the loop makes it: a call under \<^verbatim>\<open>testLock\<close>, or, when
  \<^verbatim>\<open>runTestsInParallel\<close> is set, the \<^verbatim>\<open>go\<close> statement alone. \<open>Go rv langEnv\<close> says that
  the statement was executed in the iteration of \<open>rv\<close>; which revision the goroutine tests
  is decided when it runs (\<open>goroutineRun\<close> below).\<close>

definition runTest ::
  "'r revision \<Rightarrow> ('r, 'l) world \<Rightarrow> bool \<Rightarrow> 'l Repo \<Rightarrow> 'r \<Rightarrow> languageConfig \<Rightarrow> 'r event list" where
  "runTest I W runTestsInParallel r rv langEnv =
     (if runTestsInParallel then [Go rv langEnv]
      else Lock # fst (testRevision I W r rv langEnv) @
           (case snd (testRevision I W r rv langEnv) of
              Some err \<Rightarrow> [Errorf ''failed to test revision'']
            | None \<Rightarrow> []) @ [Unlock])"

text \<open>The loop body, for the revision \<open>rv\<close> of the iteration; \<open>later\<close> are the revisions of
  the iterations still to come.\<close>

definition testRevisions_body ::
  "'r revision \<Rightarrow> ('r, 'l) world \<Rightarrow> bool \<Rightarrow> 'l Repo \<Rightarrow> 'r \<Rightarrow> 'r list \<Rightarrow> 'r loop_state
     \<Rightarrow> 'r loop_state" where
  "testRevisions_body I W runTestsInParallel r rv later s =
     (if alreadyHandled I (revisionsTested s) rv then s
      else case canBeTested I rv of
        Some err \<Rightarrow> s\<lparr>events := events s @ [CanBeTested rv]\<rparr>
      | None \<Rightarrow>
          (case setupRevision I W r rv of
             (evs, Inl err) \<Rightarrow>
               s\<lparr>events := events s @ CanBeTested rv # evs @ [Errorf ''failed to setup revision'']\<rparr>
           | (evs, Inr langEnv) \<Rightarrow>
               s\<lparr>revisionsTested := (revisionsTested s)(rev_id I rv \<mapsto> rv),
                 events := events s @ CanBeTested rv # evs @
                           runTest I W runTestsInParallel r rv langEnv,
                 defers := langEnv # defers s,
                 started := started s @
                            (if runTestsInParallel then [(rv, later, langEnv)] else [])\<rparr>))"

fun testRevisions_loop ::
  "'r revision \<Rightarrow> ('r, 'l) world \<Rightarrow> bool \<Rightarrow> 'l Repo \<Rightarrow> 'r list \<Rightarrow> 'r loop_state \<Rightarrow> 'r loop_state" where
  "testRevisions_loop I W par r [] s = s"
| "testRevisions_loop I W par r (rv # revs) s =
     testRevisions_loop I W par r revs (testRevisions_body I W par r rv revs s)"

text \<open>The deferred cleanups, run when \<^verbatim>\<open>testRevisions\<close> returns; a failing one is logged.\<close>

fun runDefers :: "('r, 'l) world \<Rightarrow> languageConfig list \<Rightarrow> 'r event list" where
  "runDefers W [] = []"
| "runDefers W (langEnv # rest) =
     Cleanup langEnv #
     (case cleanup W langEnv of Some err \<Rightarrow> [Errorf err] | None \<Rightarrow> []) @ runDefers W rest"

definition testRevisions ::
  "'r revision \<Rightarrow> ('r, 'l) world \<Rightarrow> bool \<Rightarrow> 'l Repo \<Rightarrow> 'r list \<Rightarrow> (string \<rightharpoonup> 'r)
     \<Rightarrow> (string \<rightharpoonup> 'r) \<times> 'r event list" where
  "testRevisions I W runTestsInParallel r revisions tbl =
     (let s = testRevisions_loop I W runTestsInParallel r revisions
                \<lparr>revisionsTested = evict I revisions tbl, events = [], defers = [],
                 started = []\<rparr>
      in (revisionsTested s, events s @ runDefers W (defers s)))"

text \<open>
  The goroutines a pass has started when it returns, and what one of them does. A goroutine
  reads the variable \<^verbatim>\<open>revision\<close> when it evaluates the arguments of \<^verbatim>\<open>r.testRevision\<close>;
  by then the loop has assigned the variable \<open>n\<close> more times, and after the last
  iteration the variable keeps its last value.
\<close>

definition testRevisions_goroutines ::
  "'r revision \<Rightarrow> ('r, 'l) world \<Rightarrow> bool \<Rightarrow> 'l Repo \<Rightarrow> 'r list \<Rightarrow> (string \<rightharpoonup> 'r)
     \<Rightarrow> ('r \<times> 'r list \<times> languageConfig) list" where
  "testRevisions_goroutines I W runTestsInParallel r revisions tbl =
     started (testRevisions_loop I W runTestsInParallel r revisions
                \<lparr>revisionsTested = evict I revisions tbl, events = [], defers = [],
                 started = []\<rparr>)"

fun loopVariable :: "'r \<Rightarrow> 'r list \<Rightarrow> nat \<Rightarrow> 'r" where
  "loopVariable rv later 0 = rv"
| "loopVariable rv [] (Suc n) = rv"
| "loopVariable rv (x # later) (Suc n) = loopVariable x later n"

definition goroutineRun ::
  "'r revision \<Rightarrow> ('r, 'l) world \<Rightarrow> 'l Repo \<Rightarrow> 'r \<times> 'r list \<times> languageConfig \<Rightarrow> nat
     \<Rightarrow> 'r event list" where
  "goroutineRun I W r g n =
     (case g of
        (rv, later, langEnv) \<Rightarrow>
          (let revision = loopVariable rv later n
           in fst (testRevision I W r revision langEnv) @
              (case snd (testRevision I W r revision langEnv) of
                 Some err \<Rightarrow> [Errorf ''failed to test revision'']
               | None \<Rightarrow> [])))"

subsection \<open>The poll loop\<close>

text \<open>
  What the provider answers during one cycle: \<^verbatim>\<open>newRepoBranch\<close>, \<^verbatim>\<open>newPullRequest\<close> and
  \<^verbatim>\<open>r.cvr.getOpenPullRequests()\<close>.
\<close>

record 'r provider =
  newRepoBranch :: "string \<Rightarrow> CVR \<Rightarrow> error + 'r"
  newPullRequest :: "int \<Rightarrow> pullRequestConfig \<Rightarrow> error + 'r"
  getOpenPullRequests :: "error + int list"

text \<open>The closure \<^verbatim>\<open>appendPullRequests\<close>: it returns at the first request that cannot be
  fetched, keeping the ones appended before.\<close>

fun appendPullRequests ::
  "'r provider \<Rightarrow> 'l Repo \<Rightarrow> 'r list \<Rightarrow> int list \<Rightarrow> 'r list \<times> error option" where
  "appendPullRequests P r revisions [] = (revisions, None)"
| "appendPullRequests P r revisions (prNumber # prs) =
     (case newPullRequest P prNumber (prConfig r) of
        Inl err \<Rightarrow> (revisions, Some ''failed to get pull request'')
      | Inr pr \<Rightarrow> appendPullRequests P r (revisions @ [pr]) prs)"

text \<open>The first half of the loop body: \<^verbatim>\<open>revisionsToTest\<close> and the warnings logged.\<close>

definition discover :: "'r provider \<Rightarrow> 'l Repo \<Rightarrow> 'r list \<times> 'r event list" where
  "discover P r =
     (let (revisionsToTest, warned) =
            (case newRepoBranch P (MasterBranch r) (cvr r) of
               Inl err \<Rightarrow> ([], [Warnf ''failed to get master branch''])
             | Inr branch \<Rightarrow> ([branch], []))
      in if PR r \<noteq> 0 then
           (case appendPullRequests P r revisionsToTest [PR r] of
              (revisions, Some err) \<Rightarrow> (revisions, warned @ [Warnf ''failed to append pull request''])
            | (revisions, None) \<Rightarrow> (revisions, warned))
         else
           (case getOpenPullRequests P of
              Inl err \<Rightarrow> (revisionsToTest, warned @ [Warnf ''failed to get open pull requests''])
            | Inr prs \<Rightarrow>
                (case appendPullRequests P r revisionsToTest prs of
                   (revisions, Some err) \<Rightarrow>
                     (revisions, warned @ [Warnf ''failed to append pull requests''])
                 | (revisions, None) \<Rightarrow> (revisions, warned))))"

text \<open>One turn of the \<^verbatim>\<open>for\<close> of \<^verbatim>\<open>loop\<close>: discovery, the test of the revisions when there
  is at least one, the sleep.\<close>

definition loop_cycle ::
  "'r revision \<Rightarrow> ('r, 'l) world \<Rightarrow> 'r provider \<Rightarrow> bool \<Rightarrow> 'l Repo \<Rightarrow> (string \<rightharpoonup> 'r)
     \<Rightarrow> (string \<rightharpoonup> 'r) \<times> 'r event list" where
  "loop_cycle I W P runTestsInParallel r tbl =
     (let (revisionsToTest, warned) = discover P r;
          (tbl', evs) =
            (if length revisionsToTest > 0
             then testRevisions I W runTestsInParallel r revisionsToTest tbl
             else (tbl, []))
      in (tbl', warned @ evs @ [Sleep (refresh r)]))"

text \<open>
  \<^verbatim>\<open>loop\<close> never returns. The model runs it for as many cycles as it is given provider
  answers, from the empty table, and returns the table and the calls made up to there.
\<close>

fun loop_from ::
  "'r revision \<Rightarrow> ('r, 'l) world \<Rightarrow> bool \<Rightarrow> 'l Repo \<Rightarrow> 'r provider list \<Rightarrow> (string \<rightharpoonup> 'r)
     \<Rightarrow> 'r event list \<Rightarrow> (string \<rightharpoonup> 'r) \<times> 'r event list" where
  "loop_from I W par r [] tbl evs = (tbl, evs)"
| "loop_from I W par r (P # Ps) tbl evs =
     (case loop_cycle I W P par r tbl of
        (tbl', evs') \<Rightarrow> loop_from I W par r Ps tbl' (evs @ evs'))"

definition loop ::
  "'r revision \<Rightarrow> ('r, 'l) world \<Rightarrow> bool \<Rightarrow> 'l Repo \<Rightarrow> 'r provider list
     \<Rightarrow> (string \<rightharpoonup> 'r) \<times> 'r event list" where
  "loop I W par r Ps = loop_from I W par r Ps Map.empty []"

subsection \<open>The stage pipeline\<close>

text \<open>
  \<^verbatim>\<open>repo.go\<close> calls the \<^verbatim>\<open>test\<close> method of a revision and does not define it, nor the
  stage runner behind it. Both are written here after the specification of the agent
  (its sections on the test orchestrator and on the stage runner). \<open>exec\<close> is the outcome
  of one command under a configuration.
\<close>

text \<open>Modelled from the spec: the commands of a stage, which the stage runner (missing from
  the sources) executes in order, stopping at the first that fails; an empty list is a
  success.\<close>

fun runCommands ::
  "(string \<Rightarrow> error option) \<Rightarrow> string \<Rightarrow> string list \<Rightarrow> stage_event list \<times> error option" where
  "runCommands exec stageName [] = ([], None)"
| "runCommands exec stageName (c # cs) =
     (case exec c of
        Some err \<Rightarrow> ([CommandRun stageName c], Some err)
      | None \<Rightarrow>
          (case runCommands exec stageName cs of
             (evs, res) \<Rightarrow> (CommandRun stageName c # evs, res)))"

text \<open>Modelled from the spec: the stage runner \<^verbatim>\<open>run(stageName, commands, config)\<close>, missing
  from the sources; it runs the commands of one named stage and returns pass or fail.\<close>

definition runStage ::
  "(stageConfig \<Rightarrow> string \<Rightarrow> error option) \<Rightarrow> string \<Rightarrow> string list \<Rightarrow> stageConfig
     \<Rightarrow> stage_event list \<times> error option" where
  "runStage exec stageName cmds config =
     (case runCommands (exec config) stageName cmds of
        (evs, res) \<Rightarrow> (StageStarted stageName # evs, res))"

text \<open>Modelled from the spec: the commands the missing \<^verbatim>\<open>test\<close> method hands to the runner
  for a stage name, read from the stage table it is given.\<close>

definition stageCommands :: "(string \<rightharpoonup> stage) \<Rightarrow> string \<Rightarrow> string list" where
  "stageCommands stages stageName = (case stages stageName of None \<Rightarrow> [] | Some st \<Rightarrow> commands st)"

text \<open>Modelled from the spec: whether the runner (missing from the sources) reports a named
  stage as passed.\<close>

definition stagePassed ::
  "(stageConfig \<Rightarrow> string \<Rightarrow> error option) \<Rightarrow> stageConfig \<Rightarrow> (string \<rightharpoonup> stage) \<Rightarrow> string \<Rightarrow> bool" where
  "stagePassed exec config stages stageName =
     (snd (runStage exec stageName (stageCommands stages stageName) config) = None)"

text \<open>Modelled from the spec: the \<^verbatim>\<open>test\<close> method of a revision, missing from the sources. It
  invokes the runner for setup, run and teardown unconditionally in that order, then for
  onSuccess if all three passed or for onFailure if any failed; a stage failure is reported
  as a failed test.\<close>

definition revisionTest ::
  "(stageConfig \<Rightarrow> string \<Rightarrow> error option) \<Rightarrow> stageConfig \<Rightarrow> (string \<rightharpoonup> stage)
     \<Rightarrow> stage_event list \<times> error option" where
  "revisionTest exec config stages =
     (let setupRun = runStage exec ''setup'' (stageCommands stages ''setup'') config;
          runRun = runStage exec ''run'' (stageCommands stages ''run'') config;
          teardownRun = runStage exec ''teardown'' (stageCommands stages ''teardown'') config;
          passed = (snd setupRun = None \<and> snd runRun = None \<and> snd teardownRun = None);
          lastRun = (if passed
                     then runStage exec ''onSuccess'' (stageCommands stages ''onSuccess'') config
                     else runStage exec ''onFailure'' (stageCommands stages ''onFailure'') config)
      in (fst setupRun @ fst runRun @ fst teardownRun @ fst lastRun,
          if passed then None else Some ''test failed''))"

subsection \<open>setup\<close>

text \<open>
  \<^verbatim>\<open>time.ParseDuration\<close> of the Go library (the repository builds with Go 1.8), written after
  the library's source: an optional sign, then groups of digits, optional fraction and unit.
  The accumulators are \<^verbatim>\<open>int64\<close>: \<open>wrap64\<close> is the wrap-around the overflow checks look
  for. The library multiplies the fraction by the unit in \<^verbatim>\<open>float64\<close>; \<open>fractionNanos\<close>
  below follows it, each operation rounded to the nearest double.
\<close>

definition isDigit :: "char \<Rightarrow> bool" where
  "isDigit c = ((48::nat) \<le> of_char c \<and> of_char c \<le> (57::nat))"

definition digitVal :: "char \<Rightarrow> int" where
  "digitVal c = int (of_char c) - 48"

definition maxInt64 :: int where
  "maxInt64 = 9223372036854775807"

definition wrap64 :: "int \<Rightarrow> int" where
  "wrap64 x = (x + 9223372036854775808) mod 18446744073709551616 - 9223372036854775808"

text \<open>\<^verbatim>\<open>leadingInt\<close>: the leading digits as a number and the rest; \<open>None\<close> on overflow.\<close>

fun leadingInt :: "int \<Rightarrow> string \<Rightarrow> (int \<times> string) option" where
  "leadingInt x [] = Some (x, [])"
| "leadingInt x (c # s) =
     (if \<not> isDigit c then Some (x, c # s)
      else if x > maxInt64 div 10 then None
      else (let y = wrap64 (x * 10 + digitVal c)
            in if y < 0 then None else leadingInt y s))"

text \<open>\<^verbatim>\<open>leadingFraction\<close>: as above for the digits after the point; on overflow it stops
  accumulating and goes on consuming.\<close>

fun leadingFraction :: "int \<Rightarrow> int \<Rightarrow> bool \<Rightarrow> string \<Rightarrow> int \<times> int \<times> string" where
  "leadingFraction x scale overflow [] = (x, scale, [])"
| "leadingFraction x scale overflow (c # s) =
     (if \<not> isDigit c then (x, scale, c # s)
      else if overflow then leadingFraction x scale overflow s
      else if x > maxInt64 div 10 then leadingFraction x scale True s
      else (let y = wrap64 (x * 10 + digitVal c)
            in if y < 0 then leadingFraction x scale True s
               else leadingFraction y (scale * 10) overflow s))"

definition unitMap :: "string \<rightharpoonup> int" where
  "unitMap =
     [''ns'' \<mapsto> 1,
      ''us'' \<mapsto> 1000,
      [CHR 0xC2, CHR 0xB5, CHR ''s''] \<mapsto> 1000,
      [CHR 0xCE, CHR 0xBC, CHR ''s''] \<mapsto> 1000,
      ''ms'' \<mapsto> 1000000,
      ''s'' \<mapsto> 1000000000,
      ''m'' \<mapsto> 60000000000,
      ''h'' \<mapsto> 3600000000000]"

definition unitChar :: "char \<Rightarrow> bool" where
  "unitChar c = (\<not> (c = CHR ''.'' \<or> isDigit c))"

text \<open>The optional fraction of a group: its digits as a number, their scale, the rest of the
  string and whether a digit was consumed.\<close>

definition fractionPart :: "string \<Rightarrow> int \<times> int \<times> string \<times> bool" where
  "fractionPart s1 =
     (case s1 of
        [] \<Rightarrow> (0, 1, s1, False)
      | c # rest \<Rightarrow>
          if c = CHR ''.''
          then (case leadingFraction 0 1 False rest of
                  (f, scale, s2) \<Rightarrow> (f, scale, s2, length rest \<noteq> length s2))
          else (0, 1, s1, False))"

text \<open>
  The \<^verbatim>\<open>float64\<close> arithmetic of the fraction. A positive double is kept as a fraction of
  integers whose value it is. \<open>roundFloat64 n d\<close> is the double nearest to \<open>n / d\<close>, ties
  to the even significand of 53 bits; the numbers met here are far from the ends of the
  exponent range. \<open>fractionNanos f unit scale\<close> is
  \<^verbatim>\<open>int64(float64(f) * (float64(unit) / scale))\<close>: the conversions, the quotient and the product
  are rounded in turn, the conversion to \<^verbatim>\<open>int64\<close> truncates. (\<^verbatim>\<open>scale\<close> is a power of ten
  of at most nineteen digits' worth, which repeated multiplication by ten in \<^verbatim>\<open>float64\<close>
  computes exactly.)
\<close>

function bitLength :: "int \<Rightarrow> int" where
  "bitLength n = (if n \<le> 0 then 0 else 1 + bitLength (n div 2))"
  by pat_completeness auto
termination
  by (relation "measure nat") auto

declare bitLength.simps [simp del]

definition roundFloat64 :: "int \<Rightarrow> int \<Rightarrow> int \<times> int" where
  "roundFloat64 n d =
     (if n \<le> 0 \<or> d \<le> 0 then (0, 1)
      else
        (let e0 = bitLength n - bitLength d - 53;
             n0 = (if e0 < 0 then n * 2 ^ nat (- e0) else n);
             d0 = (if e0 < 0 then d else d * 2 ^ nat e0);
             e = (if n0 div d0 \<ge> 2 ^ 53 then e0 + 1 else e0);
             d1 = (if n0 div d0 \<ge> 2 ^ 53 then d0 * 2 else d0);
             q = n0 div d1;
             rest = n0 mod d1;
             m = (if 2 * rest > d1 \<or> (2 * rest = d1 \<and> odd q) then q + 1 else q)
         in if e < 0 then (m, 2 ^ nat (- e)) else (m * 2 ^ nat e, 1)))"

definition fractionNanos :: "int \<Rightarrow> int \<Rightarrow> int \<Rightarrow> int" where
  "fractionNanos f unit scale =
     (let ff = roundFloat64 f 1;
          fu = roundFloat64 unit 1;
          fs = roundFloat64 scale 1;
          quotient = roundFloat64 (fst fu * snd fs) (snd fu * fst fs);
          product = roundFloat64 (fst ff * fst quotient) (snd ff * snd quotient)
      in fst product div snd product)"

text \<open>The value of a group in nanoseconds: integer part \<open>v\<close>, fraction \<open>f / scale\<close>,
  unit \<open>u\<close>.\<close>

definition groupValue :: "string \<Rightarrow> int \<Rightarrow> int \<Rightarrow> int \<Rightarrow> string \<Rightarrow> error + int" where
  "groupValue orig v f scale u =
     (case unitMap u of
        None \<Rightarrow> Inl (''time: unknown unit '' @ u @ '' in duration '' @ orig)
      | Some unit \<Rightarrow>
          if v > maxInt64 div unit then Inl (''time: invalid duration '' @ orig)
          else (let v1 = wrap64 (v * unit);
                    v2 = (if f > 0 then wrap64 (v1 + fractionNanos f unit scale) else v1)
                in if f > 0 \<and> v2 < 0 then Inl (''time: invalid duration '' @ orig)
                   else Inr v2))"

text \<open>One turn of the loop of \<^verbatim>\<open>ParseDuration\<close>: a number with its unit, in nanoseconds, and
  the rest of the string.\<close>

definition parseGroup :: "string \<Rightarrow> string \<Rightarrow> error + (int \<times> string)" where
  "parseGroup orig s =
     (case s of
        [] \<Rightarrow> Inl (''time: invalid duration '' @ orig)
      | c # cs \<Rightarrow>
          if \<not> (c = CHR ''.'' \<or> isDigit c) then Inl (''time: invalid duration '' @ orig)
          else
            (case leadingInt 0 s of
               None \<Rightarrow> Inl (''time: invalid duration '' @ orig)
             | Some (v, s1) \<Rightarrow>
                 (case fractionPart s1 of
                    (f, scale, s2, post) \<Rightarrow>
                      if length s = length s1 \<and> \<not> post
                      then Inl (''time: invalid duration '' @ orig)
                      else if takeWhile unitChar s2 = []
                      then Inl (''time: missing unit in duration '' @ orig)
                      else
                        (case groupValue orig v f scale (takeWhile unitChar s2) of
                           Inl err \<Rightarrow> Inl err
                         | Inr n \<Rightarrow> Inr (n, dropWhile unitChar s2)))))"

text \<open>Every group consumes at least its unit, which is what ends the loop.\<close>

lemma leadingInt_length: "leadingInt x s = Some (v, s1) \<Longrightarrow> length s1 \<le> length s"
  by (induction x s rule: leadingInt.induct) (auto simp: Let_def split: if_splits)

lemma leadingFraction_length: "length (snd (snd (leadingFraction x scale ov s))) \<le> length s"
proof (induction s arbitrary: x scale ov)
  case Nil
  then show ?case by simp
next
  case (Cons c s)
  have "length (snd (snd (leadingFraction y sc b s))) \<le> Suc (length s)" for y sc b
    using Cons[of y sc b] by simp
  then show ?case by (simp add: Let_def)
qed

lemma fractionPart_length:
  "fractionPart s1 = (f, scale, s2, post) \<Longrightarrow> length s2 \<le> length s1"
  using leadingFraction_length[of 0 1 False "tl s1"]
  by (auto simp: fractionPart_def split: list.splits if_splits prod.splits)

lemma dropWhile_shorter: "takeWhile P xs \<noteq> [] \<Longrightarrow> length (dropWhile P xs) < length xs"
  by (induction xs) (auto split: if_splits simp: le_imp_less_Suc length_dropWhile_le)

lemma parseGroup_consumes:
  assumes "parseGroup orig s = Inr (v, rest)"
  shows "length rest < length s"
proof -
  from assms obtain w s1 where li: "leadingInt 0 s = Some (w, s1)"
    by (auto simp: parseGroup_def split: list.splits if_splits option.splits)
  obtain f scale s2 post where fp: "fractionPart s1 = (f, scale, s2, post)"
    by (cases "fractionPart s1") auto
  from assms li fp have "takeWhile unitChar s2 \<noteq> []" and "rest = dropWhile unitChar s2"
    by (auto simp: parseGroup_def split: list.splits if_splits sum.splits)
  then have "length rest < length s2" by (simp add: dropWhile_shorter)
  with fractionPart_length[OF fp] leadingInt_length[OF li] show ?thesis by simp
qed

text \<open>The loop: the groups are added up in \<^verbatim>\<open>int64\<close>, a sum that wraps is an error.\<close>

function parseGroups :: "string \<Rightarrow> int \<Rightarrow> string \<Rightarrow> error + int" where
  "parseGroups orig d s =
     (if s = [] then Inr d
      else case parseGroup orig s of
             Inl err \<Rightarrow> Inl err
           | Inr (v, rest) \<Rightarrow>
               (let d' = wrap64 (d + v)
                in if d' < 0 then Inl (''time: invalid duration '' @ orig)
                   else parseGroups orig d' rest))"
  by pat_completeness auto
termination
  by (relation "measure (\<lambda>(orig, d, s). length s)") (auto dest: parseGroup_consumes)

definition ParseDuration :: "string \<Rightarrow> error + int" where
  "ParseDuration orig =
     (let signed = (case orig of [] \<Rightarrow> False | c # rest \<Rightarrow> c = CHR ''-'' \<or> c = CHR ''+'');
          neg = (case orig of [] \<Rightarrow> False | c # rest \<Rightarrow> c = CHR ''-'');
          s = (if signed then tl orig else orig)
      in if s = ''0'' then Inr 0
         else if s = [] then Inl (''time: invalid duration '' @ orig)
         else case parseGroups orig 0 s of
                Inl err \<Rightarrow> Inl err
              | Inr d \<Rightarrow> Inr (if neg then - d else d))"

text \<open>
  The setup functions. Each returns the repository as it leaves it, or the error. What they
  call outside the file is a parameter: \<^verbatim>\<open>strings.TrimSpace\<close>, \<^verbatim>\<open>newCVR\<close>,
  \<^verbatim>\<open>os.MkdirAll\<close>, \<^verbatim>\<open>r.Language.setup()\<close>, \<^verbatim>\<open>strings.Split\<close>, \<^verbatim>\<open>os.Environ\<close> and the
  constant \<^verbatim>\<open>defaultLogDir\<close>.
\<close>

record 'l host =
  strings_TrimSpace :: "string \<Rightarrow> string"
  newCVR :: "string \<Rightarrow> string \<Rightarrow> error + CVR"
  mkdirAll :: "string \<Rightarrow> error option"
  languageSetup :: "'l \<Rightarrow> error + 'l"
  defaultLogDir :: string
  strings_Split :: "string \<Rightarrow> string \<Rightarrow> string list"
  os_Environ :: "string list"

definition logServerUser :: string where
  "logServerUser = ''root''"

definition defaultEnv :: "string list" where
  "defaultEnv = [''CI=true'', ''LOCALCI=true'']"

definition setupCvr :: "'l host \<Rightarrow> 'l Repo \<Rightarrow> error + 'l Repo" where
  "setupCvr H r =
     (let url = strings_TrimSpace H (URL r)
      in if length url = 0 then Inl ''missing repository url''
         else case newCVR H url (Token r) of
                Inl err \<Rightarrow> Inl err
              | Inr c \<Rightarrow> Inr (r\<lparr>URL := url, cvr := c\<rparr>))"

definition setupLogServer :: "'l host \<Rightarrow> 'l Repo \<Rightarrow> error + 'l Repo" where
  "setupLogServer H r =
     (if LogServer r = \<lparr>IP = [], User = [], Dir = []\<rparr> then Inr r
      else if length (IP (LogServer r)) = 0 then Inl ''missing server ip''
      else Inr (r\<lparr>LogServer :=
                  \<lparr>IP = IP (LogServer r),
                   User = (if length (User (LogServer r)) = 0 then logServerUser
                           else User (LogServer r)),
                   Dir = (if length (Dir (LogServer r)) = 0 then defaultLogDir H
                          else Dir (LogServer r))\<rparr>\<rparr>))"

definition setupLogDir :: "'l host \<Rightarrow> 'l Repo \<Rightarrow> error + 'l Repo" where
  "setupLogDir H r = (case mkdirAll H (LogDir r) of Some err \<Rightarrow> Inl err | None \<Rightarrow> Inr r)"

definition setupRefreshTime :: "'l Repo \<Rightarrow> error + 'l Repo" where
  "setupRefreshTime r =
     (case ParseDuration (RefreshTime r) of
        Inl err \<Rightarrow>
          Inl (''failed to parse refresh time '' @ [CHR 0x27] @ RefreshTime r @ [CHR 0x27] @
               '' '' @ err)
      | Inr d \<Rightarrow> Inr (r\<lparr>refresh := d\<rparr>))"

definition setupCommentTrigger :: "'l Repo \<Rightarrow> error + 'l Repo" where
  "setupCommentTrigger r =
     (if CommentTrigger r = \<lparr>Comment = []\<rparr> then Inr r
      else if length (Comment (CommentTrigger r)) = 0 then Inl ''missing comment trigger''
      else Inr r)"

definition setupLanguage :: "'l host \<Rightarrow> 'l Repo \<Rightarrow> error + 'l Repo" where
  "setupLanguage H r =
     (case languageSetup H (Language r) of
        Inl err \<Rightarrow> Inl err
      | Inr l \<Rightarrow> Inr (r\<lparr>Language := l\<rparr>))"

definition setupStages :: "'l Repo \<Rightarrow> error + 'l Repo" where
  "setupStages r = (if length (Run r) = 0 then Inl ''missing run commands'' else Inr r)"

definition setupWhitelist :: "'l host \<Rightarrow> 'l Repo \<Rightarrow> error + 'l Repo" where
  "setupWhitelist H r = Inr (r\<lparr>whitelistUsers := strings_Split H (Whitelist r) '',''\<rparr>)"

definition setupEnvars :: "'l host \<Rightarrow> 'l Repo \<Rightarrow> error + 'l Repo" where
  "setupEnvars H r =
     Inr (r\<lparr>repo_env := os_Environ H @ defaultEnv @
                          [''LOCALCI_REPO_SLUG='' @ getRepoSlug (cvr r)]\<rparr>)"

text \<open>The loop of \<^verbatim>\<open>setup\<close> over its list of functions: the first error is returned.
  \<open>Repo_setup\<close> is the method \<^verbatim>\<open>setup\<close> of \<^verbatim>\<open>Repo\<close>.\<close>

fun runSetupFuncs :: "('a \<Rightarrow> error + 'a) list \<Rightarrow> 'a \<Rightarrow> error + 'a" where
  "runSetupFuncs [] r = Inr r"
| "runSetupFuncs (setupFunc # rest) r =
     (case setupFunc r of Inl err \<Rightarrow> Inl err | Inr r' \<Rightarrow> runSetupFuncs rest r')"

definition Repo_setup :: "'l host \<Rightarrow> 'l Repo \<Rightarrow> error + 'l Repo" where
  "Repo_setup H r =
     (case runSetupFuncs
             [setupCvr H, setupRefreshTime, setupLogDir H, setupLogServer H,
              setupCommentTrigger, setupLanguage H, setupStages, setupWhitelist H,
              setupEnvars H] r of
        Inl err \<Rightarrow> Inl err
      | Inr r' \<Rightarrow>
          Inr (r'\<lparr>prConfig :=
                   \<lparr>pc_cvr = cvr r', pc_commentTrigger = CommentTrigger r',
                    pc_postOnFailure = PostOnFailure r', pc_postOnSuccess = PostOnSuccess r',
                    pc_whitelist = Whitelist r'\<rparr>\<rparr>))"

subsection \<open>Reading a trace\<close>

text \<open>The revision in whose iteration the loop made a call, or on which a test ran; \<open>None\<close>
  for the calls that carry none. For \<open>Go\<close> it is the revision of the iteration that executed
  the \<^verbatim>\<open>go\<close> statement, not the one the goroutine tests.\<close>

fun event_revision :: "'r event \<Rightarrow> 'r option" where
  "event_revision (CanBeTested rv) = Some rv"
| "event_revision (GenerateEnvironment rv slug) = Some rv"
| "event_revision (Download rv dir) = Some rv"
| "event_revision (Go rv langEnv) = Some rv"
| "event_revision (Test rv config) = Some rv"
| "event_revision (InTest rv e) = Some rv"
| "event_revision e = None"

text \<open>The environments released in a trace, in order.\<close>

fun cleanups :: "'r event list \<Rightarrow> languageConfig list" where
  "cleanups [] = []"
| "cleanups (Cleanup langEnv # es) = langEnv # cleanups es"
| "cleanups (e # es) = cleanups es"

text \<open>The stages the runner started in a trace, in order.\<close>

fun stagesStarted :: "'r event list \<Rightarrow> string list" where
  "stagesStarted [] = []"
| "stagesStarted (InTest rv (StageStarted stageName) # es) = stageName # stagesStarted es"
| "stagesStarted (e # es) = stagesStarted es"

text \<open>Is the event a warning of the logger?\<close>

fun isWarnf :: "'r event \<Rightarrow> bool" where
  "isWarnf (Warnf msg) = True"
| "isWarnf e = False"

subsection \<open>A concrete repository\<close>

text \<open>
  A small instance on which the definitions are evaluated. A revision is a branch or a pull
  request reduced to what the interface observes: its identity, the commit it points to, and
  how the provider, the provisioner and the download answer for it. Two revisions are equal
  when identity and commit agree. A command fails when it is \<^verbatim>\<open>false\<close>.
\<close>

record sample =
  s_id :: string
  s_commit :: string
  s_beingTested :: bool
  s_allowed :: bool
  s_provisions :: bool
  s_downloads :: bool

definition sampleExec :: "stageConfig \<Rightarrow> string \<Rightarrow> error option" where
  "sampleExec config c = (if c = ''false'' then Some ''exit status 1'' else None)"

definition sampleRevision :: "sample revision" where
  "sampleRevision =
     \<lparr>rev_id = s_id,
      isBeingTested = s_beingTested,
      rev_equal = (\<lambda>a b. s_id a = s_id b \<and> s_commit a = s_commit b),
      canBeTested = (\<lambda>a. if s_allowed a then None else Some ''author not in whitelist''),
      download = (\<lambda>a dir. if s_downloads a then None else Some ''download failed''),
      logDirName = s_id,
      rev_test = (\<lambda>a. revisionTest sampleExec)\<rparr>"

definition sampleWorld :: "(sample, string) world" where
  "sampleWorld =
     \<lparr>generateEnvironment =
        (\<lambda>a lang slug. if s_provisions a
                        then Inr \<lparr>workingDir = ''/tmp/'' @ s_id a, env = [''GOPATH=/tmp/'' @ s_id a]\<rparr>
                        else Inl ''cannot provision''),
      cleanup = (\<lambda>langEnv. None),
      os_MkdirAll = (\<lambda>dir. None),
      filepath_Join = (\<lambda>a b. a @ ''/'' @ b),
      copy = (\<lambda>server dir. Some ''connection refused'')\<rparr>"

definition sampleRepo :: "string Repo" where
  "sampleRepo =
     \<lparr>URL = ''github.com/clearcontainers/tests'', MasterBranch = ''master'', PR = 0,
      RefreshTime = ''30s'', Token = [], Setup = [], Run = [''echo pass''], Teardown = [],
      OnSuccess = [''echo ok''], OnFailure = [''echo ko''], TTY = False, PostOnSuccess = [],
      PostOnFailure = [], LogDir = ''/var/log/localCI'', Language = ''Go'',
      CommentTrigger = \<lparr>Comment = []\<rparr>,
      LogServer = \<lparr>IP = ''10.0.0.1'', User = ''root'', Dir = ''/logs''\<rparr>,
      Whitelist = [],
      cvr = \<lparr>getProjectSlug = ''github.com/clearcontainers/tests'',
             getRepoSlug = ''clearcontainers/tests''\<rparr>,
      refresh = 30000000000, repo_env = [''CI=true'', ''LOCALCI=true''], whitelistUsers = [],
      prConfig = \<lparr>pc_cvr = \<lparr>getProjectSlug = ''github.com/clearcontainers/tests'',
                             getRepoSlug = ''clearcontainers/tests''\<rparr>,
                  pc_commentTrigger = \<lparr>Comment = []\<rparr>, pc_postOnFailure = [],
                  pc_postOnSuccess = [], pc_whitelist = []\<rparr>\<rparr>"

definition masterBranch :: sample where
  "masterBranch =
     \<lparr>s_id = ''master'', s_commit = ''c0ffee'', s_beingTested = False, s_allowed = True,
      s_provisions = True, s_downloads = True\<rparr>"

text \<open>A pull request whose environment is provisioned and whose download fails.\<close>

definition brokenPR :: sample where
  "brokenPR =
     \<lparr>s_id = ''7'', s_commit = ''badc0de'', s_beingTested = False, s_allowed = True,
      s_provisions = True, s_downloads = False\<rparr>"

text \<open>A pull request already in the table, the same request while its test runs, the same
  request after a new commit, and a request that has been closed since.\<close>

definition testedPR :: sample where
  "testedPR =
     \<lparr>s_id = ''12'', s_commit = ''a1'', s_beingTested = False, s_allowed = True,
      s_provisions = True, s_downloads = True\<rparr>"

definition runningPR :: sample where
  "runningPR = testedPR\<lparr>s_beingTested := True\<rparr>"

definition updatedPR :: sample where
  "updatedPR = testedPR\<lparr>s_commit := ''b2''\<rparr>"

definition closedPR :: sample where
  "closedPR =
     \<lparr>s_id = ''3'', s_commit = ''d4'', s_beingTested = False, s_allowed = True,
      s_provisions = True, s_downloads = True\<rparr>"

text \<open>A provider that reaches nothing: no branch, no list of pull requests.\<close>

definition offline :: "sample provider" where
  "offline =
     \<lparr>newRepoBranch = (\<lambda>branch c. Inl ''timeout''),
      newPullRequest = (\<lambda>n config. Inl ''timeout''),
      getOpenPullRequests = Inl ''timeout''\<rparr>"

text \<open>A provider that serves the branch and one open pull request, number 7.\<close>

definition serving :: "sample provider" where
  "serving =
     \<lparr>newRepoBranch = (\<lambda>branch c. Inr masterBranch),
      newPullRequest = (\<lambda>n config. if n = 7 then Inr brokenPR else Inl ''not found''),
      getOpenPullRequests = Inr [7]\<rparr>"

text \<open>The machine the agent runs on: directories can be made, the provider is reachable,
  blanks are trimmed and lists are split at commas.\<close>

fun splitAt :: "char \<Rightarrow> string \<Rightarrow> string list" where
  "splitAt sep [] = [[]]"
| "splitAt sep (c # cs) =
     (if c = sep then [] # splitAt sep cs
      else (case splitAt sep cs of [] \<Rightarrow> [[c]] | w # ws \<Rightarrow> (c # w) # ws))"

definition isBlank :: "char \<Rightarrow> bool" where
  "isBlank c = (c = CHR '' '')"

definition sampleHost :: "string host" where
  "sampleHost =
     \<lparr>strings_TrimSpace = (\<lambda>s. rev (dropWhile isBlank (rev (dropWhile isBlank s)))),
      newCVR = (\<lambda>url token. Inr \<lparr>getProjectSlug = url, getRepoSlug = ''clearcontainers/tests''\<rparr>),
      mkdirAll = (\<lambda>dir. None),
      languageSetup = Inr,
      defaultLogDir = ''/var/log/localCI'',
      strings_Split = (\<lambda>s sep. case sep of [c] \<Rightarrow> splitAt c s | _ \<Rightarrow> [s]),
      os_Environ = [''HOME=/root'']\<rparr>"

text \<open>The sample repository with a \<^verbatim>\<open>run\<close> stage that fails.\<close>

definition failingRepo :: "string Repo" where
  "failingRepo = sampleRepo\<lparr>Run := [''false'']\<rparr>"

lemmas sample_defs = sampleRevision_def sampleWorld_def sampleRepo_def sampleExec_def
  masterBranch_def

lemmas model_defs = testRevisions_def testRevisions_body_def alreadyHandled_def evict_def
  setupRevision_def projectSlug_def runTest_def testRevision_def testConfig_def
  revisionLogDir_def shipLogs_def testStages_def

lemmas pipeline_defs = revisionTest_def runStage_def stageCommands_def stagePassed_def

section \<open>Properties\<close>

subsection \<open>One pass of testRevisions over the table\<close>

lemma found_iff: "found I revs k \<longleftrightarrow> k \<in> rev_id I ` set revs"
  by (induction revs) auto

lemma evict_found: "found I revisions k \<Longrightarrow> evict I revisions tbl k = tbl k"
  by (simp add: evict_def split: option.splits)

lemma evict_not_found:
  "\<not> found I revisions k \<Longrightarrow> tbl k = Some v \<Longrightarrow>
   evict I revisions tbl k = (if isBeingTested I v then Some v else None)"
  by (simp add: evict_def)

lemma evict_discovered:
  "rv \<in> set revisions \<Longrightarrow> evict I revisions tbl (rev_id I rv) = tbl (rev_id I rv)"
  by (rule evict_found) (simp add: found_iff)

text \<open>The calls made for one revision carry that revision or none.\<close>

lemma setupRevision_events:
  "e \<in> set (fst (setupRevision I W r rv)) \<Longrightarrow> event_revision e = Some rv \<or> event_revision e = None"
  by (auto simp: setupRevision_def Let_def split: sum.splits option.splits)

lemma setupRevision_events_of:
  "setupRevision I W r rv = (evs, res) \<Longrightarrow> e \<in> set evs \<Longrightarrow>
   event_revision e = Some rv \<or> event_revision e = None"
  using setupRevision_events[of e I W r rv] by simp

lemma shipLogs_events: "e \<in> set (shipLogs W r config) \<Longrightarrow> event_revision e = None"
  by (auto simp: shipLogs_def split: if_splits option.splits)

lemma testRevision_events:
  "e \<in> set (fst (testRevision I W r rv langEnv)) \<Longrightarrow>
   event_revision e = Some rv \<or> event_revision e = None"
  by (auto simp: testRevision_def Let_def split: prod.splits dest: shipLogs_events)

lemma runTest_events:
  "e \<in> set (runTest I W par r rv langEnv) \<Longrightarrow>
   event_revision e = Some rv \<or> event_revision e = None"
  by (auto simp: runTest_def split: if_splits option.splits dest: testRevision_events)

lemma body_events:
  "e \<in> set (events (testRevisions_body I W par r rv later s)) \<Longrightarrow>
   e \<in> set (events s) \<or> event_revision e = Some rv \<or> event_revision e = None"
  by (auto simp: testRevisions_body_def split: if_splits option.splits prod.splits sum.splits
      dest: setupRevision_events_of runTest_events)

lemma runDefers_events: "e \<in> set (runDefers W ds) \<Longrightarrow> event_revision e = None"
  by (induction ds) (auto split: option.splits)

text \<open>The loop body writes the key of its own revision only, and only adds calls.\<close>

lemma body_other_key:
  "rev_id I rv \<noteq> k \<Longrightarrow>
   revisionsTested (testRevisions_body I W par r rv later s) k = revisionsTested s k"
  by (auto simp: testRevisions_body_def split: if_splits option.splits prod.splits sum.splits)

lemma body_handled:
  "alreadyHandled I (revisionsTested s) rv \<Longrightarrow> testRevisions_body I W par r rv later s = s"
  by (simp add: testRevisions_body_def)

lemma loop_other_key:
  "k \<notin> rev_id I ` set revs \<Longrightarrow>
   revisionsTested (testRevisions_loop I W par r revs s) k = revisionsTested s k"
  by (induction revs arbitrary: s) (auto simp: body_other_key)

lemma alreadyHandled_cong:
  "tbl (rev_id I rv) = tbl' (rev_id I rv) \<Longrightarrow> alreadyHandled I tbl rv = alreadyHandled I tbl' rv"
  by (simp add: alreadyHandled_def)

lemma body_records:
  assumes "\<not> alreadyHandled I (revisionsTested s) rv" "canBeTested I rv = None"
    "snd (setupRevision I W r rv) = Inr langEnv"
  shows "revisionsTested (testRevisions_body I W par r rv later s) (rev_id I rv) = Some rv"
    and "set (runTest I W par r rv langEnv) \<subseteq> set (events (testRevisions_body I W par r rv later s))"
  using assms by (auto simp: testRevisions_body_def split: prod.splits sum.splits)

lemma body_keeps_recorded:
  "revisionsTested s (rev_id I rv) = Some rv \<Longrightarrow>
   revisionsTested (testRevisions_body I W par r rv later s) (rev_id I rv) = Some rv"
  by (auto simp: testRevisions_body_def split: option.splits prod.splits sum.splits)

lemma body_events_mono:
  "set (events s) \<subseteq> set (events (testRevisions_body I W par r rv later s))"
  by (auto simp: testRevisions_body_def split: option.splits prod.splits sum.splits)

lemma loop_events_mono:
  "set (events s) \<subseteq> set (events (testRevisions_loop I W par r revs s))"
proof (induction revs arbitrary: s)
  case Nil
  then show ?case by simp
next
  case (Cons x xs)
  show ?case
    using Cons.IH[of "testRevisions_body I W par r x xs s"] body_events_mono[of s I W par r x xs]
    by auto
qed

text \<open>
  A revision whose entry says ``being tested'' or ``equal'' goes through the whole loop
  untouched, provided no other discovered revision shares its identity: its entry stays and
  no call is made for it.
\<close>

lemma loop_skips:
  assumes "\<forall>x\<in>set revs. rev_id I x = rev_id I rv \<longrightarrow> x = rv"
    and "revisionsTested s (rev_id I rv) = Some t"
    and "isBeingTested I t \<or> rev_equal I rv t"
    and "Some rv \<notin> event_revision ` set (events s)"
  shows "revisionsTested (testRevisions_loop I W par r revs s) (rev_id I rv) = Some t \<and>
         Some rv \<notin> event_revision ` set (events (testRevisions_loop I W par r revs s))"
  using assms
proof (induction revs arbitrary: s)
  case Nil
  then show ?case by simp
next
  case (Cons x xs)
  show ?case
  proof (cases "x = rv")
    case True
    have "alreadyHandled I (revisionsTested s) rv"
      using Cons.prems(2,3) by (auto simp: alreadyHandled_def)
    then have "testRevisions_body I W par r x xs s = s"
      using True by (simp add: body_handled)
    then show ?thesis using Cons by simp
  next
    case False
    then have ne: "rev_id I x \<noteq> rev_id I rv" using Cons.prems(1) by auto
    have kept: "revisionsTested (testRevisions_body I W par r x xs s) (rev_id I rv) = Some t"
      using ne Cons.prems(2) by (simp add: body_other_key)
    have quiet: "Some rv \<notin> event_revision ` set (events (testRevisions_body I W par r x xs s))"
    proof
      assume "Some rv \<in> event_revision ` set (events (testRevisions_body I W par r x xs s))"
      then obtain e where e: "e \<in> set (events (testRevisions_body I W par r x xs s))"
        "event_revision e = Some rv" by force
      from body_events[OF e(1)] e(2) False Cons.prems(4) show False by force
    qed
    show ?thesis using Cons.IH[OF _ kept Cons.prems(3) quiet] Cons.prems(1) by simp
  qed
qed

text \<open>Once the entry of an identity holds the discovered revision, the rest of the loop
  leaves it there.\<close>

lemma loop_keeps_recorded:
  assumes "\<forall>x\<in>set revs. rev_id I x = rev_id I rv \<longrightarrow> x = rv"
    and "revisionsTested s (rev_id I rv) = Some rv"
  shows "revisionsTested (testRevisions_loop I W par r revs s) (rev_id I rv) = Some rv"
  using assms
proof (induction revs arbitrary: s)
  case Nil
  then show ?case by simp
next
  case (Cons x xs)
  have "revisionsTested (testRevisions_body I W par r x xs s) (rev_id I rv) = Some rv"
  proof (cases "x = rv")
    case True
    then show ?thesis using Cons.prems(2) by (simp add: body_keeps_recorded)
  next
    case False
    then have "rev_id I x \<noteq> rev_id I rv" using Cons.prems(1) by auto
    then show ?thesis using Cons.prems(2) by (simp add: body_other_key)
  qed
  then show ?case using Cons.IH Cons.prems(1) by simp
qed

text \<open>A revision that gets past the two skips, is eligible and is set up: the loop ends with
  it in the table and with the calls of its test in the trace.\<close>

lemma loop_records:
  assumes "rv \<in> set revs"
    and "\<forall>x\<in>set revs. rev_id I x = rev_id I rv \<longrightarrow> x = rv"
    and "\<not> alreadyHandled I (revisionsTested s) rv"
    and "canBeTested I rv = None"
    and "snd (setupRevision I W r rv) = Inr langEnv"
  shows "revisionsTested (testRevisions_loop I W par r revs s) (rev_id I rv) = Some rv \<and>
         set (runTest I W par r rv langEnv) \<subseteq> set (events (testRevisions_loop I W par r revs s))"
  using assms
proof (induction revs arbitrary: s)
  case Nil
  then show ?case by simp
next
  case (Cons x xs)
  show ?case
  proof (cases "x = rv")
    case True
    let ?s = "testRevisions_body I W par r rv xs s"
    have rec: "revisionsTested ?s (rev_id I rv) = Some rv"
      and ev: "set (runTest I W par r rv langEnv) \<subseteq> set (events ?s)"
      using body_records[OF Cons.prems(3,4,5)] by auto
    have "revisionsTested (testRevisions_loop I W par r xs ?s) (rev_id I rv) = Some rv"
    proof -
      have "\<forall>x\<in>set xs. rev_id I x = rev_id I rv \<longrightarrow> x = rv" using Cons.prems(2) by simp
      then show ?thesis using rec by (rule loop_keeps_recorded)
    qed
    moreover have "set (events ?s) \<subseteq> set (events (testRevisions_loop I W par r xs ?s))"
      by (rule loop_events_mono)
    ultimately show ?thesis using True ev by auto
  next
    case False
    then have ne: "rev_id I x \<noteq> rev_id I rv" using Cons.prems(2) by auto
    let ?s = "testRevisions_body I W par r x xs s"
    have "revisionsTested ?s (rev_id I rv) = revisionsTested s (rev_id I rv)"
      using ne by (simp add: body_other_key)
    then have nh: "\<not> alreadyHandled I (revisionsTested ?s) rv"
      using Cons.prems(3) alreadyHandled_cong[of "revisionsTested ?s" I rv "revisionsTested s"]
      by simp
    have "rv \<in> set xs" using Cons.prems(1) False by auto
    from Cons.IH[OF this _ nh Cons.prems(4,5)] Cons.prems(2) show ?thesis by simp
  qed
qed

text \<open>A revision whose setup fails leaves the table as it is.\<close>

lemma body_setup_fails:
  "snd (setupRevision I W r rv) = Inl err \<Longrightarrow>
   revisionsTested (testRevisions_body I W par r rv later s) = revisionsTested s"
  by (auto simp: testRevisions_body_def split: option.splits prod.splits sum.splits)

lemma loop_setup_fails:
  assumes "\<forall>x\<in>set revs. rev_id I x = rev_id I rv \<longrightarrow> x = rv"
    and "snd (setupRevision I W r rv) = Inl err"
  shows "revisionsTested (testRevisions_loop I W par r revs s) (rev_id I rv) =
         revisionsTested s (rev_id I rv)"
  using assms(1)
proof (induction revs arbitrary: s)
  case Nil
  then show ?case by simp
next
  case (Cons x xs)
  have "revisionsTested (testRevisions_body I W par r x xs s) (rev_id I rv) =
        revisionsTested s (rev_id I rv)"
  proof (cases "x = rv")
    case True
    then show ?thesis using assms(2) by (simp add: body_setup_fails)
  next
    case False
    then have "rev_id I x \<noteq> rev_id I rv" using Cons.prems by auto
    then show ?thesis by (simp add: body_other_key)
  qed
  then show ?case using Cons.IH Cons.prems by simp
qed

lemma testRevisions_setup_fails:
  assumes "rv \<in> set revisions"
    and "\<forall>x\<in>set revisions. rev_id I x = rev_id I rv \<longrightarrow> x = rv"
    and "snd (setupRevision I W r rv) = Inl err"
  shows "fst (testRevisions I W par r revisions tbl) (rev_id I rv) = tbl (rev_id I rv)"
  using loop_setup_fails[where revs = revisions and par = par
      and s = "\<lparr>revisionsTested = evict I revisions tbl, events = [], defers = [], started = []\<rparr>",
      OF assms(2,3)]
    evict_discovered[OF assms(1), where I = I and tbl = tbl]
  by (simp add: testRevisions_def Let_def)

text \<open>A revision that gets past the two skips and is eligible is set up: the calls of its
  \<^verbatim>\<open>setupRevision\<close> are in the trace, the first of them the provisioning, and the error of a
  failed setup is logged.\<close>

lemma setupRevision_provisions:
  "GenerateEnvironment rv (projectSlug r) \<in> set (fst (setupRevision I W r rv))"
  by (simp add: setupRevision_def Let_def split: sum.splits option.splits)

lemma body_reaches_setup:
  assumes "\<not> alreadyHandled I (revisionsTested s) rv" "canBeTested I rv = None"
  shows "set (fst (setupRevision I W r rv)) \<subseteq>
           set (events (testRevisions_body I W par r rv later s))"
    and "snd (setupRevision I W r rv) = Inl err \<Longrightarrow>
           Errorf ''failed to setup revision'' \<in>
             set (events (testRevisions_body I W par r rv later s))"
  using assms
  by (cases "setupRevision I W r rv"; auto simp: testRevisions_body_def split: sum.splits)+

lemma loop_reaches_setup:
  assumes "rv \<in> set revs"
    and "\<forall>x\<in>set revs. rev_id I x = rev_id I rv \<longrightarrow> x = rv"
    and "\<not> alreadyHandled I (revisionsTested s) rv"
    and "canBeTested I rv = None"
  shows "set (fst (setupRevision I W r rv)) \<subseteq> set (events (testRevisions_loop I W par r revs s)) \<and>
         (\<forall>err. snd (setupRevision I W r rv) = Inl err \<longrightarrow>
            Errorf ''failed to setup revision'' \<in> set (events (testRevisions_loop I W par r revs s)))"
  using assms
proof (induction revs arbitrary: s)
  case Nil
  then show ?case by simp
next
  case (Cons x xs)
  show ?case
  proof (cases "x = rv")
    case True
    let ?s = "testRevisions_body I W par r rv xs s"
    have "set (events ?s) \<subseteq> set (events (testRevisions_loop I W par r xs ?s))"
      by (rule loop_events_mono)
    then show ?thesis
      using True
        body_reaches_setup[where W = W and r = r and par = par and later = xs,
          OF Cons.prems(3,4)]
      by auto
  next
    case False
    then have ne: "rev_id I x \<noteq> rev_id I rv" using Cons.prems(2) by auto
    let ?s = "testRevisions_body I W par r x xs s"
    have "revisionsTested ?s (rev_id I rv) = revisionsTested s (rev_id I rv)"
      using ne by (simp add: body_other_key)
    then have nh: "\<not> alreadyHandled I (revisionsTested ?s) rv"
      using Cons.prems(3) alreadyHandled_cong[of "revisionsTested ?s" I rv "revisionsTested s"]
      by simp
    have "rv \<in> set xs" using Cons.prems(1) False by auto
    from Cons.IH[OF this _ nh Cons.prems(4)] Cons.prems(2) show ?thesis by simp
  qed
qed

lemma testRevisions_reaches_setup:
  assumes "rv \<in> set revisions"
    and "\<forall>x\<in>set revisions. rev_id I x = rev_id I rv \<longrightarrow> x = rv"
    and "\<not> alreadyHandled I tbl rv"
    and "canBeTested I rv = None"
  shows "GenerateEnvironment rv (projectSlug r) \<in> set (snd (testRevisions I W par r revisions tbl))"
    and "snd (setupRevision I W r rv) = Inl err \<Longrightarrow>
           Errorf ''failed to setup revision'' \<in> set (snd (testRevisions I W par r revisions tbl))"
proof -
  let ?init = "\<lparr>revisionsTested = evict I revisions tbl, events = [], defers = [],
                started = []\<rparr>"
  have "\<not> alreadyHandled I (revisionsTested ?init) rv"
    using assms(3) alreadyHandled_cong[of "evict I revisions tbl" I rv tbl]
      evict_discovered[OF assms(1)] by simp
  from loop_reaches_setup[where W = W and r = r and par = par, OF assms(1,2) this assms(4)]
  have sub: "set (fst (setupRevision I W r rv)) \<subseteq> set (snd (testRevisions I W par r revisions tbl))"
    and err: "\<forall>err. snd (setupRevision I W r rv) = Inl err \<longrightarrow>
            Errorf ''failed to setup revision'' \<in> set (snd (testRevisions I W par r revisions tbl))"
    by (auto simp: testRevisions_def Let_def)
  show "GenerateEnvironment rv (projectSlug r) \<in> set (snd (testRevisions I W par r revisions tbl))"
    using sub setupRevision_provisions[of rv r I W] by auto
  show "snd (setupRevision I W r rv) = Inl err \<Longrightarrow>
           Errorf ''failed to setup revision'' \<in> set (snd (testRevisions I W par r revisions tbl))"
    using err by simp
qed

lemma testRevisions_records:
  assumes "rv \<in> set revisions"
    and "\<forall>x\<in>set revisions. rev_id I x = rev_id I rv \<longrightarrow> x = rv"
    and "\<not> alreadyHandled I tbl rv"
    and "canBeTested I rv = None"
    and "snd (setupRevision I W r rv) = Inr langEnv"
  shows "fst (testRevisions I W par r revisions tbl) (rev_id I rv) = Some rv"
    and "set (runTest I W par r rv langEnv) \<subseteq> set (snd (testRevisions I W par r revisions tbl))"
proof -
  let ?init = "\<lparr>revisionsTested = evict I revisions tbl, events = [], defers = [], started = []\<rparr>"
  have "\<not> alreadyHandled I (revisionsTested ?init) rv"
    using assms(3) alreadyHandled_cong[of "evict I revisions tbl" I rv tbl]
      evict_discovered[OF assms(1)] by simp
  from loop_records[OF assms(1,2) this assms(4,5), of par]
  show "fst (testRevisions I W par r revisions tbl) (rev_id I rv) = Some rv"
    and "set (runTest I W par r rv langEnv) \<subseteq> set (snd (testRevisions I W par r revisions tbl))"
    by (auto simp: testRevisions_def Let_def)
qed

lemma testRevisions_skips:
  assumes "rv \<in> set revisions"
    and "\<forall>x\<in>set revisions. rev_id I x = rev_id I rv \<longrightarrow> x = rv"
    and "tbl (rev_id I rv) = Some t"
    and "isBeingTested I t \<or> rev_equal I rv t"
  shows "fst (testRevisions I W par r revisions tbl) (rev_id I rv) = Some t \<and>
         Some rv \<notin> event_revision ` set (snd (testRevisions I W par r revisions tbl))"
proof -
  let ?init = "\<lparr>revisionsTested = evict I revisions tbl, events = [], defers = [], started = []\<rparr>"
  let ?s = "testRevisions_loop I W par r revisions ?init"
  have t: "revisionsTested ?init (rev_id I rv) = Some t"
    using assms(1,3) by (simp add: evict_discovered)
  have "revisionsTested ?s (rev_id I rv) = Some t \<and> Some rv \<notin> event_revision ` set (events ?s)"
    by (rule loop_skips[OF assms(2) t assms(4)]) simp
  moreover have "Some rv \<notin> event_revision ` set (runDefers W (defers ?s))"
    using runDefers_events by force
  ultimately show ?thesis by (auto simp: testRevisions_def Let_def)
qed

section \<open>The claims\<close>

subsection \<open>C1: what is recorded into the table\<close>

text \<open>
  C1 says that a revision that reaches dispatch is recorded into the table whatever the
  outcome, also when provisioning or download fails. The code records a revision only after
  \<^verbatim>\<open>setupRevision\<close> has succeeded: on its error it logs and continues with the next
  revision. On the sample, the pull request whose download fails is absent from the table
  after the pass; over two cycles of the loop it is set up twice, while the branch, which
  was tested in the first, is set up once.
\<close>

theorem setup_failure_not_recorded:
  "snd (setupRevision sampleRevision sampleWorld sampleRepo brokenPR) = Inl ''download failed'' \<and>
   fst (testRevisions sampleRevision sampleWorld False sampleRepo [brokenPR] Map.empty)
     (rev_id sampleRevision brokenPR) = None \<and>
   fst (loop sampleRevision sampleWorld False sampleRepo [serving, serving]) ''7'' = None \<and>
   count_list (snd (loop sampleRevision sampleWorld False sampleRepo [serving, serving]))
     (Download brokenPR ''/tmp/7'') = 2 \<and>
   count_list (snd (loop sampleRevision sampleWorld False sampleRepo [serving, serving]))
     (Download masterBranch ''/tmp/master'') = 1"
  by (simp add: loop_def loop_cycle_def discover_def model_defs pipeline_defs sample_defs
      brokenPR_def serving_def Let_def)

text \<open>
  C1, amended: take a discovered revision that is not skipped and is eligible, and whose
  identity no other revision discovered with it shares. When \<^verbatim>\<open>testRevisions\<close> returns, the
  table holds the revision under its identity if its \<^verbatim>\<open>setupRevision\<close> succeeded, whether
  the test then passed or failed and in either dispatch mode. If \<^verbatim>\<open>setupRevision\<close> failed,
  the error is logged, the entry of that identity is what it was before the pass, and the
  next pass that discovers the revision, still eligible and again with an identity of its
  own, provisions an environment for it again.
\<close>

theorem revision_recorded_after_test:
  assumes "rv \<in> set revisions"
    and "\<forall>x\<in>set revisions. rev_id I x = rev_id I rv \<longrightarrow> x = rv"
    and "\<not> alreadyHandled I tbl rv"
    and "canBeTested I rv = None"
    and "rv \<in> set revisions'"
    and "\<forall>x\<in>set revisions'. rev_id I x = rev_id I rv \<longrightarrow> x = rv"
  shows "case snd (setupRevision I W r rv) of
           Inr langEnv \<Rightarrow>
             fst (testRevisions I W par r revisions tbl) (rev_id I rv) = Some rv
         | Inl err \<Rightarrow>
             fst (testRevisions I W par r revisions tbl) (rev_id I rv) = tbl (rev_id I rv) \<and>
             Errorf ''failed to setup revision'' \<in> set (snd (testRevisions I W par r revisions tbl)) \<and>
             GenerateEnvironment rv (projectSlug r) \<in>
               set (snd (testRevisions I W par' r revisions'
                           (fst (testRevisions I W par r revisions tbl))))"
proof (cases "snd (setupRevision I W r rv)")
  case (Inl err)
  have kept: "fst (testRevisions I W par r revisions tbl) (rev_id I rv) = tbl (rev_id I rv)"
    using testRevisions_setup_fails[OF assms(1,2) Inl] .
  have logged: "Errorf ''failed to setup revision'' \<in> set (snd (testRevisions I W par r revisions tbl))"
    using testRevisions_reaches_setup(2)[OF assms(1,2,3,4) Inl] .
  have "\<not> alreadyHandled I (fst (testRevisions I W par r revisions tbl)) rv"
    using assms(3) kept
      alreadyHandled_cong[of "fst (testRevisions I W par r revisions tbl)" I rv tbl]
    by simp
  then have "GenerateEnvironment rv (projectSlug r) \<in>
               set (snd (testRevisions I W par' r revisions'
                           (fst (testRevisions I W par r revisions tbl))))"
    using testRevisions_reaches_setup(1)[OF assms(5,6) _ assms(4)] by blast
  then show ?thesis using Inl kept logged by simp
next
  case (Inr langEnv)
  then show ?thesis using testRevisions_records(1)[OF assms(1,2,3,4) Inr] by simp
qed

text \<open>The witness: the branch is recorded although its \<^verbatim>\<open>run\<close> stage fails; the pull request,
  whose download fails, is not recorded, the failure is logged, and a second pass provisions
  for it again.\<close>

theorem revision_recorded_after_test_witness:
  "snd (testRevision sampleRevision sampleWorld failingRepo masterBranch
          \<lparr>workingDir = ''/tmp/master'', env = [''GOPATH=/tmp/master'']\<rparr>) = Some ''test failed'' \<and>
   fst (testRevisions sampleRevision sampleWorld False failingRepo [masterBranch, brokenPR]
          Map.empty) (rev_id sampleRevision masterBranch) = Some masterBranch \<and>
   fst (testRevisions sampleRevision sampleWorld False failingRepo [masterBranch, brokenPR]
          Map.empty) (rev_id sampleRevision brokenPR) = None \<and>
   Errorf ''failed to setup revision'' \<in>
     set (snd (testRevisions sampleRevision sampleWorld False failingRepo [masterBranch, brokenPR]
                 Map.empty)) \<and>
   GenerateEnvironment brokenPR (projectSlug failingRepo) \<in>
     set (snd (testRevisions sampleRevision sampleWorld False failingRepo [masterBranch, brokenPR]
                 (fst (testRevisions sampleRevision sampleWorld False failingRepo
                         [masterBranch, brokenPR] Map.empty))))"
proof -
  have m1: "masterBranch \<in> set [masterBranch, brokenPR]" by simp
  have m2: "\<forall>x\<in>set [masterBranch, brokenPR].
              rev_id sampleRevision x = rev_id sampleRevision masterBranch \<longrightarrow> x = masterBranch"
    by (simp add: sample_defs brokenPR_def)
  have m3: "\<not> alreadyHandled sampleRevision Map.empty masterBranch"
    by (simp add: alreadyHandled_def)
  have m4: "canBeTested sampleRevision masterBranch = None"
    by (simp add: sample_defs)
  have m5: "snd (setupRevision sampleRevision sampleWorld failingRepo masterBranch) =
              Inr \<lparr>workingDir = ''/tmp/master'', env = [''GOPATH=/tmp/master'']\<rparr>"
    by (simp add: model_defs sample_defs failingRepo_def Let_def)
  have b1: "brokenPR \<in> set [masterBranch, brokenPR]" by simp
  have b2: "\<forall>x\<in>set [masterBranch, brokenPR].
              rev_id sampleRevision x = rev_id sampleRevision brokenPR \<longrightarrow> x = brokenPR"
    by (simp add: sample_defs brokenPR_def)
  have b3: "\<not> alreadyHandled sampleRevision Map.empty brokenPR"
    by (simp add: alreadyHandled_def)
  have b4: "canBeTested sampleRevision brokenPR = None"
    by (simp add: sample_defs brokenPR_def)
  have b5: "snd (setupRevision sampleRevision sampleWorld failingRepo brokenPR) =
              Inl ''download failed''"
    by (simp add: model_defs sample_defs brokenPR_def failingRepo_def Let_def)
  have failed: "snd (testRevision sampleRevision sampleWorld failingRepo masterBranch
          \<lparr>workingDir = ''/tmp/master'', env = [''GOPATH=/tmp/master'']\<rparr>) = Some ''test failed''"
    by (simp add: model_defs pipeline_defs sample_defs failingRepo_def Let_def)
  show ?thesis
    using failed m5 b5
      revision_recorded_after_test[where I = sampleRevision and W = sampleWorld and par = False
        and par' = False and r = failingRepo and tbl = Map.empty and rv = masterBranch
        and revisions = "[masterBranch, brokenPR]" and revisions' = "[masterBranch, brokenPR]",
        OF m1 m2 m3 m4 m1 m2]
      revision_recorded_after_test[where I = sampleRevision and W = sampleWorld and par = False
        and par' = False and r = failingRepo and tbl = Map.empty and rv = brokenPR
        and revisions = "[masterBranch, brokenPR]" and revisions' = "[masterBranch, brokenPR]",
        OF b1 b2 b3 b4 b1 b2]
    by simp
qed

subsection \<open>C2: release of the provisioned environment\<close>

text \<open>
  C2 says that every provisioned environment is released exactly once, also when the
  download fails after provisioning. In \<^verbatim>\<open>setupRevision\<close> the download error returns an empty
  configuration in place of the provisioned one, and \<^verbatim>\<open>testRevisions\<close> continues before it
  registers the deferred cleanup. On the sample the environment of the pull request is
  provisioned, the download fails, and the pass releases nothing; the environment of the
  branch, whose setup succeeds, is released once, in both dispatch modes.
\<close>

theorem download_failure_leaks_environment:
  "generateEnvironment sampleWorld brokenPR (Language sampleRepo) (projectSlug sampleRepo) =
     Inr \<lparr>workingDir = ''/tmp/7'', env = [''GOPATH=/tmp/7'']\<rparr> \<and>
   snd (testRevisions sampleRevision sampleWorld False sampleRepo [brokenPR] Map.empty) =
     [CanBeTested brokenPR,
      GenerateEnvironment brokenPR ''github.com/clearcontainers/tests'',
      Download brokenPR ''/tmp/7'',
      Errorf ''failed to setup revision''] \<and>
   cleanups (snd (testRevisions sampleRevision sampleWorld False sampleRepo [brokenPR] Map.empty)) = [] \<and>
   cleanups (snd (testRevisions sampleRevision sampleWorld False sampleRepo
                    [masterBranch, brokenPR] Map.empty)) =
     [\<lparr>workingDir = ''/tmp/master'', env = [''GOPATH=/tmp/master'']\<rparr>] \<and>
   cleanups (snd (testRevisions sampleRevision sampleWorld True sampleRepo
                    [masterBranch, brokenPR] Map.empty)) =
     [\<lparr>workingDir = ''/tmp/master'', env = [''GOPATH=/tmp/master'']\<rparr>]"
  by (simp add: model_defs pipeline_defs sample_defs brokenPR_def Let_def)

subsection \<open>C3: an unchanged revision is skipped\<close>

text \<open>
  C3 says that a discovered revision whose identity has an entry that is not being tested and
  is equal to it is skipped: no eligibility check, no provisioning, no stage runs. The loop
  does skip it, in both modes: the entry stays and the loop makes no call for the revision
  (\<open>testRevisions_skips\<close>). Under serialized dispatch that is all there is, since the tests
  run inside the loop.
\<close>

lemma unchanged_revision_skipped_serially:
  assumes "rv \<in> set revisions"
    and "\<forall>x\<in>set revisions. rev_id I x = rev_id I rv \<longrightarrow> x = rv"
    and "tbl (rev_id I rv) = Some t"
    and "\<not> isBeingTested I t"
    and "rev_equal I rv t"
  shows "fst (testRevisions I W False r revisions tbl) (rev_id I rv) = Some t \<and>
         Some rv \<notin> event_revision ` set (snd (testRevisions I W False r revisions tbl)) \<and>
         testRevisions_goroutines I W False r revisions tbl = []"
proof -
  have "started (testRevisions_body I W False r x later s) = started s" for x later s
    by (auto simp: testRevisions_body_def split: option.splits prod.splits sum.splits)
  then have "started (testRevisions_loop I W False r revs s) = started s" for revs s
    by (induction revs arbitrary: s) simp_all
  then have "testRevisions_goroutines I W False r revisions tbl = []"
    by (simp add: testRevisions_goroutines_def)
  moreover have "fst (testRevisions I W False r revisions tbl) (rev_id I rv) = Some t \<and>
         Some rv \<notin> event_revision ` set (snd (testRevisions I W False r revisions tbl))"
    using assms(1,2,3) by (rule testRevisions_skips) (use assms(5) in simp)
  ultimately show ?thesis by simp
qed

text \<open>
  C3 under concurrent dispatch: the stages run on the skipped revision all the same. The
  branch and an unchanged pull request are discovered. The loop starts one goroutine, in the
  iteration of the branch; the goroutine refers to the loop variable, which holds the pull
  request once the loop has moved on; run then, it tests the pull request, in the
  environment provisioned for the branch.
\<close>

theorem goroutine_tests_unchanged_revision:
  "Some testedPR \<notin> event_revision `
     set (snd (testRevisions sampleRevision sampleWorld True sampleRepo [masterBranch, testedPR]
                 [''12'' \<mapsto> testedPR])) \<and>
   testRevisions_goroutines sampleRevision sampleWorld True sampleRepo [masterBranch, testedPR]
       [''12'' \<mapsto> testedPR] =
     [(masterBranch, [testedPR], \<lparr>workingDir = ''/tmp/master'', env = [''GOPATH=/tmp/master'']\<rparr>)] \<and>
   goroutineRun sampleRevision sampleWorld sampleRepo
       (masterBranch, [testedPR], \<lparr>workingDir = ''/tmp/master'', env = [''GOPATH=/tmp/master'']\<rparr>) 1 =
     [Test testedPR
        \<lparr>cfg_workingDir = ''/tmp/master'',
         cfg_env = [''CI=true'', ''LOCALCI=true'', ''GOPATH=/tmp/master''],
         tty = False, logDir = ''/var/log/localCI/12''\<rparr>,
      InTest testedPR (StageStarted ''setup''),
      InTest testedPR (StageStarted ''run''),
      InTest testedPR (CommandRun ''run'' ''echo pass''),
      InTest testedPR (StageStarted ''teardown''),
      InTest testedPR (StageStarted ''onSuccess''),
      InTest testedPR (CommandRun ''onSuccess'' ''echo ok''),
      Copy ''/var/log/localCI/12'',
      Errorf ''failed to copy log dir'']"
  by (simp add: testRevisions_goroutines_def goroutineRun_def model_defs pipeline_defs
      sample_defs testedPR_def Let_def)

subsection \<open>C4: a revision being tested is skipped\<close>

text \<open>
  C4 says that a discovered revision whose identity has an entry marked being-tested is not
  dispatched, so that one test at most is in flight for an identity. The loop does skip it
  (\<open>testRevisions_skips\<close>), and a test is started for the identity all the same. A pull
  request is under test when the branch and a new commit of the request are discovered.
  The loop keeps the entry and makes no call for the request; the goroutine it starts in the
  iteration of the branch refers to the loop variable, which holds the request once the
  loop has moved on; run then, it tests the new commit while the test of the old one is in
  flight.
\<close>

theorem goroutine_tests_revision_being_tested:
  "map_option (isBeingTested sampleRevision)
     (fst (testRevisions sampleRevision sampleWorld True sampleRepo [masterBranch, updatedPR]
             [''12'' \<mapsto> runningPR]) ''12'') = Some True \<and>
   Some updatedPR \<notin> event_revision `
     set (snd (testRevisions sampleRevision sampleWorld True sampleRepo [masterBranch, updatedPR]
                 [''12'' \<mapsto> runningPR])) \<and>
   testRevisions_goroutines sampleRevision sampleWorld True sampleRepo [masterBranch, updatedPR]
       [''12'' \<mapsto> runningPR] =
     [(masterBranch, [updatedPR], \<lparr>workingDir = ''/tmp/master'', env = [''GOPATH=/tmp/master'']\<rparr>)] \<and>
   rev_id sampleRevision updatedPR = ''12'' \<and>
   goroutineRun sampleRevision sampleWorld sampleRepo
       (masterBranch, [updatedPR], \<lparr>workingDir = ''/tmp/master'', env = [''GOPATH=/tmp/master'']\<rparr>) 1 =
     [Test updatedPR
        \<lparr>cfg_workingDir = ''/tmp/master'',
         cfg_env = [''CI=true'', ''LOCALCI=true'', ''GOPATH=/tmp/master''],
         tty = False, logDir = ''/var/log/localCI/12''\<rparr>,
      InTest updatedPR (StageStarted ''setup''),
      InTest updatedPR (StageStarted ''run''),
      InTest updatedPR (CommandRun ''run'' ''echo pass''),
      InTest updatedPR (StageStarted ''teardown''),
      InTest updatedPR (StageStarted ''onSuccess''),
      InTest updatedPR (CommandRun ''onSuccess'' ''echo ok''),
      Copy ''/var/log/localCI/12'',
      Errorf ''failed to copy log dir'']"
  by (simp add: testRevisions_goroutines_def goroutineRun_def model_defs pipeline_defs
      sample_defs testedPR_def runningPR_def updatedPR_def Let_def)

subsection \<open>C5: eviction of stale entries\<close>

text \<open>
  C5: an entry whose identity is not among the discovered revisions is gone after
  \<^verbatim>\<open>testRevisions\<close> exactly when it is not marked being-tested; an entry being tested is kept
  as it is.
\<close>

theorem stale_entry_evicted_unless_being_tested:
  assumes "tbl k = Some v" and "k \<notin> rev_id I ` set revisions"
  shows "fst (testRevisions I W par r revisions tbl) k =
           (if isBeingTested I v then Some v else None)"
proof -
  have "\<not> found I revisions k" using assms(2) by (simp add: found_iff)
  then have "evict I revisions tbl k = (if isBeingTested I v then Some v else None)"
    using assms(1) by (rule evict_not_found)
  then show ?thesis using assms(2) by (simp add: testRevisions_def Let_def loop_other_key)
qed

theorem stale_entry_evicted_unless_being_tested_witness:
  "fst (testRevisions sampleRevision sampleWorld False sampleRepo [masterBranch]
          [''3'' \<mapsto> closedPR, ''12'' \<mapsto> runningPR]) ''3'' = None \<and>
   fst (testRevisions sampleRevision sampleWorld False sampleRepo [masterBranch]
          [''3'' \<mapsto> closedPR, ''12'' \<mapsto> runningPR]) ''12'' = Some runningPR"
proof -
  have a1: "[''3'' \<mapsto> closedPR, ''12'' \<mapsto> runningPR] ''3'' = Some closedPR" by simp
  have a2: "''3'' \<notin> rev_id sampleRevision ` set [masterBranch]"
    by (simp add: sample_defs)
  have b1: "[''3'' \<mapsto> closedPR, ''12'' \<mapsto> runningPR] ''12'' = Some runningPR" by simp
  have b2: "''12'' \<notin> rev_id sampleRevision ` set [masterBranch]"
    by (simp add: sample_defs)
  show ?thesis
    using stale_entry_evicted_unless_being_tested[where I = sampleRevision and W = sampleWorld
        and par = False and r = sampleRepo and revisions = "[masterBranch]"
        and tbl = "[''3'' \<mapsto> closedPR, ''12'' \<mapsto> runningPR]", OF a1 a2]
      stale_entry_evicted_unless_being_tested[where I = sampleRevision and W = sampleWorld
        and par = False and r = sampleRepo and revisions = "[masterBranch]"
        and tbl = "[''3'' \<mapsto> closedPR, ''12'' \<mapsto> runningPR]", OF b1 b2]
    by (simp add: sample_defs testedPR_def runningPR_def closedPR_def)
qed

subsection \<open>C6: the order of the stages\<close>

text \<open>
  C6: in the test of a revision the runner starts setup, run and teardown in this order,
  then exactly one more stage: onSuccess when the three passed, onFailure otherwise. The
  stage table is the one \<^verbatim>\<open>testRevision\<close> builds; the sequencing is that of \<open>revisionTest\<close>.
\<close>

lemma stagesStarted_append: "stagesStarted (xs @ ys) = stagesStarted xs @ stagesStarted ys"
  by (induction xs rule: stagesStarted.induct) auto

lemma stagesStarted_commands:
  "stagesStarted (map (InTest rv) (fst (runCommands exec nm cs))) = []"
  by (induction cs) (auto split: option.splits prod.splits)

lemma stagesStarted_runStage:
  "stagesStarted (map (InTest rv) (fst (runStage exec nm cs config))) = [nm]"
  using stagesStarted_commands[of rv "exec config" nm cs]
  by (cases "runCommands (exec config) nm cs") (simp add: runStage_def)

lemma stagesStarted_shipLogs: "stagesStarted (shipLogs W r config) = []"
  by (simp add: shipLogs_def split: option.splits)

theorem stages_run_in_order:
  "stagesStarted (fst (testRevision (I\<lparr>rev_test := \<lambda>rv. revisionTest exec\<rparr>) W r rv langEnv)) =
     [''setup'', ''run'', ''teardown'',
      if stagePassed exec (testConfig I W r rv langEnv) (testStages r) ''setup'' \<and>
         stagePassed exec (testConfig I W r rv langEnv) (testStages r) ''run'' \<and>
         stagePassed exec (testConfig I W r rv langEnv) (testStages r) ''teardown''
      then ''onSuccess'' else ''onFailure'']"
  by (simp add: testRevision_def revisionTest_def Let_def stagesStarted_append
      stagesStarted_runStage stagesStarted_shipLogs stagePassed_def testConfig_def
      revisionLogDir_def)

text \<open>On the sample: a passing \<^verbatim>\<open>run\<close> ends with onSuccess, a failing one with onFailure.\<close>

theorem stages_run_in_order_witness:
  "stagesStarted (fst (testRevision (sampleRevision\<lparr>rev_test := \<lambda>rv. revisionTest sampleExec\<rparr>)
      sampleWorld sampleRepo masterBranch \<lparr>workingDir = ''/tmp/master'', env = []\<rparr>)) =
     [''setup'', ''run'', ''teardown'', ''onSuccess''] \<and>
   stagesStarted (fst (testRevision (sampleRevision\<lparr>rev_test := \<lambda>rv. revisionTest sampleExec\<rparr>)
      sampleWorld failingRepo masterBranch \<lparr>workingDir = ''/tmp/master'', env = []\<rparr>)) =
     [''setup'', ''run'', ''teardown'', ''onFailure'']"
proof -
  have pass: "stagePassed sampleExec config (testStages sampleRepo) ''setup'' \<and>
      stagePassed sampleExec config (testStages sampleRepo) ''run'' \<and>
      stagePassed sampleExec config (testStages sampleRepo) ''teardown''" for config
    by (simp add: pipeline_defs testStages_def sample_defs failingRepo_def)
  have fail: "\<not> stagePassed sampleExec config (testStages failingRepo) ''run''" for config
    by (simp add: pipeline_defs testStages_def sample_defs failingRepo_def)
  show ?thesis
    using pass fail
      stages_run_in_order[where I = sampleRevision and exec = sampleExec and W = sampleWorld
        and r = sampleRepo and rv = masterBranch
        and langEnv = "\<lparr>workingDir = ''/tmp/master'', env = []\<rparr>"]
      stages_run_in_order[where I = sampleRevision and exec = sampleExec and W = sampleWorld
        and r = failingRepo and rv = masterBranch
        and langEnv = "\<lparr>workingDir = ''/tmp/master'', env = []\<rparr>"]
    by simp
qed

subsection \<open>C7: validation of the poll interval\<close>

text \<open>
  C7 says that \<^verbatim>\<open>setup\<close> fails unless the poll interval parses to a positive duration, and
  that zero and negative durations are rejected. \<^verbatim>\<open>setupRefreshTime\<close> looks at the error of
  \<^verbatim>\<open>time.ParseDuration\<close> and at nothing else: with \<^verbatim>\<open>0s\<close> and with \<^verbatim>\<open>-1s\<close> the whole
  \<^verbatim>\<open>setup\<close> succeeds, and the duration stored is zero, or negative.
\<close>

theorem nonpositive_refresh_time_accepted:
  "map_sum id refresh (Repo_setup sampleHost (sampleRepo\<lparr>RefreshTime := ''0s''\<rparr>)) = Inr 0 \<and>
   map_sum id refresh (Repo_setup sampleHost (sampleRepo\<lparr>RefreshTime := ''-1s''\<rparr>)) =
     Inr (- 1000000000)"
  by (simp add: Repo_setup_def setupCvr_def setupRefreshTime_def setupLogDir_def
      setupLogServer_def setupCommentTrigger_def setupLanguage_def setupStages_def
      setupWhitelist_def setupEnvars_def ParseDuration_def parseGroup_def fractionPart_def groupValue_def isDigit_def
      digitVal_def unitMap_def unitChar_def maxInt64_def wrap64_def sample_defs sampleHost_def
      isBlank_def
      Let_def)

text \<open>
  C7, amended: \<^verbatim>\<open>setup\<close> fails whenever the poll-interval string does not parse as a
  duration, \<^verbatim>\<open>setupRefreshTime\<close> fails in that case only, and a string that parses is
  accepted with the duration it denotes, whatever its sign.
\<close>

lemma setupCvr_RefreshTime: "setupCvr H r = Inr r' \<Longrightarrow> RefreshTime r' = RefreshTime r"
  by (auto simp: setupCvr_def Let_def split: if_splits sum.splits)

theorem unparsable_refresh_time_rejected:
  "(isl (ParseDuration (RefreshTime r)) \<longrightarrow> isl (Repo_setup H r)) \<and>
   isl (setupRefreshTime r) = isl (ParseDuration (RefreshTime r)) \<and>
   (\<forall>d. ParseDuration (RefreshTime r) = Inr d \<longrightarrow> setupRefreshTime r = Inr (r\<lparr>refresh := d\<rparr>))"
proof -
  have "isl (Repo_setup H r)" if bad: "isl (ParseDuration (RefreshTime r))"
  proof (cases "setupCvr H r")
    case (Inl err)
    then show ?thesis by (simp add: Repo_setup_def)
  next
    case (Inr r')
    then have "isl (ParseDuration (RefreshTime r'))"
      using bad by (simp add: setupCvr_RefreshTime)
    then have "isl (setupRefreshTime r')"
      by (cases "ParseDuration (RefreshTime r')") (simp_all add: setupRefreshTime_def)
    then show ?thesis using Inr by (auto simp: Repo_setup_def isl_def)
  qed
  moreover have "isl (setupRefreshTime r) = isl (ParseDuration (RefreshTime r))"
    by (cases "ParseDuration (RefreshTime r)") (simp_all add: setupRefreshTime_def)
  moreover have "\<forall>d. ParseDuration (RefreshTime r) = Inr d \<longrightarrow>
                   setupRefreshTime r = Inr (r\<lparr>refresh := d\<rparr>)"
    by (simp add: setupRefreshTime_def)
  ultimately show ?thesis by blast
qed

theorem unparsable_refresh_time_rejected_witness:
  "ParseDuration ''soon'' = Inl ''time: invalid duration soon'' \<and>
   isl (Repo_setup sampleHost (sampleRepo\<lparr>RefreshTime := ''soon''\<rparr>))"
proof -
  have bad: "ParseDuration ''soon'' = Inl ''time: invalid duration soon''"
    by (simp add: ParseDuration_def parseGroup_def fractionPart_def groupValue_def isDigit_def
      digitVal_def unitMap_def unitChar_def maxInt64_def wrap64_def Let_def)
  then have "isl (ParseDuration (RefreshTime (sampleRepo\<lparr>RefreshTime := ''soon''\<rparr>)))"
    by simp
  then show ?thesis
    using bad
      unparsable_refresh_time_rejected[where r = "sampleRepo\<lparr>RefreshTime := ''soon''\<rparr>"
        and H = sampleHost]
    by blast
qed

subsection \<open>C8: shipping the logs\<close>

text \<open>
  C8: with a log server address configured, \<^verbatim>\<open>testRevision\<close> copies the log directory
  after the stages have run, whether the test passed or failed; a failing copy adds an error
  to the log, and the value returned is that of the test in every case.
\<close>

theorem logs_shipped_whatever_the_result:
  assumes "IP (LogServer r) \<noteq> []"
  shows "fst (testRevision I W r rv langEnv) =
           Test rv (testConfig I W r rv langEnv) #
           map (InTest rv) (fst (rev_test I rv (testConfig I W r rv langEnv) (testStages r))) @
           Copy (logDir (testConfig I W r rv langEnv)) #
           (case copy W (LogServer r) (logDir (testConfig I W r rv langEnv)) of
              Some err \<Rightarrow> [Errorf ''failed to copy log dir''] | None \<Rightarrow> []) \<and>
         snd (testRevision I W r rv langEnv) =
           snd (rev_test I rv (testConfig I W r rv langEnv) (testStages r))"
  using assms by (simp add: testRevision_def shipLogs_def Let_def split: prod.splits)

text \<open>The witness: the copy is refused, the test that passed still returns no error, and the
  test that failed returns its own.\<close>

theorem logs_shipped_whatever_the_result_witness:
  "copy sampleWorld (LogServer sampleRepo) ''/var/log/localCI/master'' = Some ''connection refused'' \<and>
   snd (testRevision sampleRevision sampleWorld sampleRepo masterBranch
          \<lparr>workingDir = ''/tmp/master'', env = []\<rparr>) = None \<and>
   snd (testRevision sampleRevision sampleWorld failingRepo masterBranch
          \<lparr>workingDir = ''/tmp/master'', env = []\<rparr>) = Some ''test failed'' \<and>
   last (fst (testRevision sampleRevision sampleWorld failingRepo masterBranch
          \<lparr>workingDir = ''/tmp/master'', env = []\<rparr>)) = Errorf ''failed to copy log dir''"
proof -
  have h: "IP (LogServer sampleRepo) \<noteq> []" by (simp add: sample_defs failingRepo_def)
  have h': "IP (LogServer failingRepo) \<noteq> []" by (simp add: sample_defs failingRepo_def)
  show ?thesis
    using logs_shipped_whatever_the_result[where I = sampleRevision and W = sampleWorld
        and rv = masterBranch and langEnv = "\<lparr>workingDir = ''/tmp/master'', env = []\<rparr>", OF h]
      logs_shipped_whatever_the_result[where I = sampleRevision and W = sampleWorld
        and rv = masterBranch and langEnv = "\<lparr>workingDir = ''/tmp/master'', env = []\<rparr>", OF h']
    by (simp add: testConfig_def revisionLogDir_def testStages_def pipeline_defs sample_defs
        failingRepo_def)
qed

subsection \<open>C9: who writes the table under concurrent dispatch\<close>








subsection \<open>C10: a cycle that discovers nothing\<close>

text \<open>
  C10: when a cycle discovers no revision, \<^verbatim>\<open>testRevisions\<close> is not called: the table is
  the one the cycle started with, and the cycle logs the warnings of the discovery and goes
  to sleep, with no other call.
\<close>

lemma discover_warnings: "list_all isWarnf (snd (discover P r))"
  by (auto simp: discover_def Let_def split: sum.splits prod.splits option.splits)

theorem no_candidates_no_reconciliation:
  assumes "fst (discover P r) = []"
  shows "fst (loop_cycle I W P par r tbl) = tbl \<and>
         snd (loop_cycle I W P par r tbl) = snd (discover P r) @ [Sleep (refresh r)] \<and>
         list_all isWarnf (snd (discover P r))"
  using assms discover_warnings[of P r]
  by (cases "discover P r") (simp add: loop_cycle_def)

text \<open>The witness: the provider is unreachable; the entry of a closed pull request, which a
  pass of \<^verbatim>\<open>testRevisions\<close> would evict, is still there.\<close>

theorem no_candidates_no_reconciliation_witness:
  "fst (loop_cycle sampleRevision sampleWorld offline False sampleRepo [''3'' \<mapsto> closedPR]) =
     [''3'' \<mapsto> closedPR] \<and>
   snd (loop_cycle sampleRevision sampleWorld offline False sampleRepo [''3'' \<mapsto> closedPR]) =
     [Warnf ''failed to get master branch'', Warnf ''failed to get open pull requests'',
      Sleep 30000000000]"
proof -
  have d: "discover offline sampleRepo =
             ([], [Warnf ''failed to get master branch'', Warnf ''failed to get open pull requests''])"
    by (simp add: discover_def sample_defs offline_def closedPR_def)
  then have h: "fst (discover offline sampleRepo) = []" by simp
  show ?thesis
    using no_candidates_no_reconciliation[where I = sampleRevision and W = sampleWorld
        and par = False and tbl = "[''3'' \<mapsto> closedPR]", OF h] d
    by (simp add: sample_defs offline_def closedPR_def)
qed

end
